theory Spec2Isabelle
  imports Main
begin

section \<open>Python strings\<close>

text \<open>
  Strings are lists of characters. The helpers below are the string methods that
  \<^verbatim>\<open>scraper.py\<close> calls: \<^verbatim>\<open>startswith\<close>, \<^verbatim>\<open>split\<close> (with and without
  \<^verbatim>\<open>maxsplit\<close>), \<^verbatim>\<open>join\<close>, \<^verbatim>\<open>replace\<close>, \<^verbatim>\<open>strip\<close>, \<^verbatim>\<open>str\<close> and
  \<^verbatim>\<open>int\<close>. Every separator the script passes is a non-empty literal; for the empty
  separator (a ValueError in Python) \<open>str_split\<close> returns the string unsplit.
\<close>

definition startswith :: "string \<Rightarrow> string \<Rightarrow> bool" where
  "startswith s p = (take (length p) s = p)"

definition endswith :: "string \<Rightarrow> string \<Rightarrow> bool" where
  "endswith s p = (length p \<le> length s \<and> drop (length s - length p) s = p)"

fun str_split :: "string \<Rightarrow> string \<Rightarrow> string list" where
  "str_split sep [] = [[]]"
| "str_split sep (c # cs) =
     (if sep \<noteq> [] \<and> take (length sep) (c # cs) = sep
      then [] # str_split sep (drop (length sep - 1) cs)
      else (case str_split sep cs of [] \<Rightarrow> [[c]] | r # rs \<Rightarrow> (c # r) # rs))"

fun str_split_max :: "string \<Rightarrow> nat \<Rightarrow> string \<Rightarrow> string list" where
  "str_split_max sep 0 s = [s]"
| "str_split_max sep (Suc n) [] = [[]]"
| "str_split_max sep (Suc n) (c # cs) =
     (if sep \<noteq> [] \<and> take (length sep) (c # cs) = sep
      then [] # str_split_max sep n (drop (length sep - 1) cs)
      else (case str_split_max sep (Suc n) cs of [] \<Rightarrow> [[c]] | r # rs \<Rightarrow> (c # r) # rs))"

fun str_join :: "string \<Rightarrow> string list \<Rightarrow> string" where
  "str_join sep [] = []"
| "str_join sep [x] = x"
| "str_join sep (x # y # ys) = x @ sep @ str_join sep (y # ys)"

definition str_replace :: "string \<Rightarrow> string \<Rightarrow> string \<Rightarrow> string" where
  "str_replace old new s = str_join new (str_split old s)"

text \<open>
  A character is a code point below 256. \<^verbatim>\<open>str.strip()\<close> removes leading and
  trailing whitespace: among these code points 9 to 13, 28 to 32, 133 and 160.
\<close>

definition is_space :: "char \<Rightarrow> bool" where
  "is_space c =
     (let n = (of_char c :: nat)
      in (9 \<le> n \<and> n \<le> 13) \<or> (28 \<le> n \<and> n \<le> 32) \<or> n = 133 \<or> n = 160)"

definition strip :: "string \<Rightarrow> string" where
  "strip s = rev (dropWhile is_space (rev (dropWhile is_space s)))"

text \<open>\<^verbatim>\<open>str(n)\<close> for an integer: its decimal digits, with a minus sign when negative.\<close>

function str_nat :: "nat \<Rightarrow> string" where
  "str_nat n =
     (if n < 10 then [''0123456789'' ! n]
      else str_nat (n div 10) @ [''0123456789'' ! (n mod 10)])"
  by pat_completeness auto
termination
  by (relation "measure (\<lambda>n. n)") auto

definition str_int :: "int \<Rightarrow> string" where
  "str_int i = (if i < 0 then CHR ''-'' # str_nat (nat (- i)) else str_nat (nat i))"

text \<open>
  \<^verbatim>\<open>int(s)\<close>: the whitespace around the number is skipped, which for \<^verbatim>\<open>int\<close> is the
  code points 9 to 13, 32, 133 and 160 (not 28 to 31, which \<^verbatim>\<open>strip\<close> removes); one
  sign is allowed, and the digits may be grouped by single underscores. More than 4300
  digits exceed the interpreter's default limit for the conversion. Anything else is a
  ValueError as well, here \<open>None\<close>.
\<close>

definition is_int_space :: "char \<Rightarrow> bool" where
  "is_int_space c =
     (let n = (of_char c :: nat) in (9 \<le> n \<and> n \<le> 13) \<or> n = 32 \<or> n = 133 \<or> n = 160)"

definition digit_val :: "char \<Rightarrow> nat option" where
  "digit_val c =
     (let n = (of_char c :: nat) in if 48 \<le> n \<and> n \<le> 57 then Some (n - 48) else None)"

fun digits_val :: "nat \<Rightarrow> bool \<Rightarrow> string \<Rightarrow> nat option" where
  "digits_val acc after_digit [] = (if after_digit then Some acc else None)"
| "digits_val acc after_digit (c # cs) =
     (if c = CHR ''_'' then (if after_digit then digits_val acc False cs else None)
      else (case digit_val c of
              None \<Rightarrow> None
            | Some d \<Rightarrow> digits_val (10 * acc + d) True cs))"

definition py_int :: "string \<Rightarrow> int option" where
  "py_int s =
     (case rev (dropWhile is_int_space (rev (dropWhile is_int_space s))) of
        [] \<Rightarrow> None
      | c # cs \<Rightarrow>
          (let ds = (if c = CHR ''-'' \<or> c = CHR ''+'' then cs else c # cs) in
           if 4300 < length (filter (\<lambda>d. digit_val d \<noteq> None) ds) then None
           else if c = CHR ''-'' then map_option (\<lambda>n. - int n) (digits_val 0 False ds)
           else map_option int (digits_val 0 False ds)))"

text \<open>\<^verbatim>\<open>os.path.join(a, b)\<close> on a POSIX system, for two components.\<close>

definition os_path_join :: "string \<Rightarrow> string \<Rightarrow> string" where
  "os_path_join a b =
     (if startswith b ''/'' then b
      else if a = [] \<or> endswith a ''/'' then a @ b
      else a @ ''/'' @ b)"

section \<open>Exceptions\<close>

text \<open>
  The exceptions that the modelled calls can raise. A function that can raise returns a
  value of \<open>exn + 'a\<close>, with \<open>Inl\<close> for the exception.
\<close>

datatype exn =
    AttributeError
  | KeyError
  | IndexError
  | ValueError
  | TypeError
  | OverflowError
  | OSError
  | FileNotFoundError
  | FileExistsError
  | IsADirectoryError
  | NotADirectoryError
  | ConnectionError
  | TimeoutException
  | NoSuchElementException
  | ElementNotInteractableException
  | ElementClickInterceptedException
  | StaleElementReferenceException
  | WebDriverException

section \<open>Parsed markup (BeautifulSoup)\<close>

text \<open>
  A parsed document is a tree of tags and text. A tag carries its name, the list of its
  classes (the value of the multi-valued \<^verbatim>\<open>class\<close> attribute, as the parser splits
  it), its other attributes and its children. The root of a document is a tag itself
  and is never among the results of a search.
\<close>

datatype node =
    Tag (tag_name: string) (tag_class: "string list") (tag_attrs: "(string \<times> string) list")
      (tag_contents: "node list")
  | NavigableString string

fun descendants :: "node \<Rightarrow> node list" where
  "descendants (Tag n cl at cs) = concat (map (\<lambda>c. c # descendants c) cs)"
| "descendants (NavigableString s) = []"

text \<open>\<^verbatim>\<open>tag.text\<close>: the text of all strings below the tag, in document order.\<close>

fun get_text :: "node \<Rightarrow> string" where
  "get_text (NavigableString s) = s"
| "get_text (Tag n cl at cs) = concat (map get_text cs)"

text \<open>
  \<^verbatim>\<open>class_=c\<close> matches a tag when \<open>c\<close> is one of its classes, or is the whole class
  attribute (its classes joined by spaces). A tag without classes matches no
  non-empty \<open>c\<close>.
\<close>

fun class_matches :: "string \<Rightarrow> node \<Rightarrow> bool" where
  "class_matches c (Tag n cl at cs) = (cl \<noteq> [] \<and> (c \<in> set cl \<or> str_join '' '' cl = c))"
| "class_matches c (NavigableString s) = False"

text \<open>
  \<^verbatim>\<open>find_all(name, class_=c, a=True, ...)\<close>: the descendants, in document order, that
  are tags called \<open>name\<close>, match the class when one is given, and have every
  attribute of \<open>present\<close>. \<^verbatim>\<open>find\<close>, here \<open>find_bs\<close>, is its first result, if any;
  \<^verbatim>\<open>findChild\<close> and \<^verbatim>\<open>findChildren\<close> are the older names of \<^verbatim>\<open>find\<close> and
  \<^verbatim>\<open>find_all\<close>.
\<close>

fun tag_matches :: "string \<Rightarrow> string option \<Rightarrow> string list \<Rightarrow> node \<Rightarrow> bool" where
  "tag_matches name cls present (Tag n cl at cs) =
     (n = name
      \<and> (case cls of None \<Rightarrow> True | Some c \<Rightarrow> class_matches c (Tag n cl at cs))
      \<and> list_all (\<lambda>a. map_of at a \<noteq> None) present)"
| "tag_matches name cls present (NavigableString s) = False"

definition find_all :: "string \<Rightarrow> string option \<Rightarrow> string list \<Rightarrow> node \<Rightarrow> node list" where
  "find_all name cls present doc = filter (tag_matches name cls present) (descendants doc)"

definition find_bs :: "string \<Rightarrow> string option \<Rightarrow> string list \<Rightarrow> node \<Rightarrow> node option" where
  "find_bs name cls present doc =
     (case find_all name cls present doc of [] \<Rightarrow> None | t # ts \<Rightarrow> Some t)"

text \<open>\<^verbatim>\<open>tag[key]\<close>: the attribute's value, KeyError when the tag has no such attribute.\<close>

fun tag_get :: "node \<Rightarrow> string \<Rightarrow> exn + string" where
  "tag_get (Tag n cl at cs) key = (case map_of at key of None \<Rightarrow> Inl KeyError | Some v \<Rightarrow> Inr v)"
| "tag_get (NavigableString s) key = Inl KeyError"

text \<open>
  \<^verbatim>\<open>select(sel)\<close> for the selectors the script uses, which have the form
  \<^verbatim>\<open>tag.class\<close>: the descendants that are tags of that name with that class among
  their classes. Any other selector selects nothing here.
\<close>

fun css_matches :: "string \<Rightarrow> string \<Rightarrow> node \<Rightarrow> bool" where
  "css_matches t c (Tag n cl at cs) = (n = t \<and> c \<in> set cl)"
| "css_matches t c (NavigableString s) = False"

definition select :: "string \<Rightarrow> node \<Rightarrow> node list" where
  "select sel doc =
     (case str_split ''.'' sel of
        [t, c] \<Rightarrow> filter (css_matches t c) (descendants doc)
      | _ \<Rightarrow> [])"

section \<open>Tables (pandas)\<close>

text \<open>
  A DataFrame is its column names and its rows of cells; a cell is a string, or missing
  (\<open>None\<close>) where pandas pads a short row.
\<close>

record dataframe =
  df_columns :: "string list"
  df_rows :: "string option list list"

text \<open>
  \<^verbatim>\<open>pd.DataFrame(rows, columns=cols)\<close> for a list of rows: short rows are padded with
  missing cells up to the longest row, and it is a ValueError when the longest row has
  not as many cells as there are column names. No rows give an empty table.
\<close>

definition pad_row :: "nat \<Rightarrow> string list \<Rightarrow> string option list" where
  "pad_row n r = map Some r @ replicate (n - length r) None"

definition DataFrame_rows :: "string list list \<Rightarrow> string list \<Rightarrow> exn + dataframe" where
  "DataFrame_rows rs cols =
     (if rs = [] then Inr \<lparr>df_columns = cols, df_rows = []\<rparr>
      else if fold max (map length rs) 0 \<noteq> length cols then Inl ValueError
      else Inr \<lparr>df_columns = cols, df_rows = map (pad_row (length cols)) rs\<rparr>)"

text \<open>
  \<^verbatim>\<open>pd.concat(frames)\<close> for frames of the same columns: their rows one after the other;
  a ValueError when there is no frame.
\<close>

definition pd_concat :: "dataframe list \<Rightarrow> exn + dataframe" where
  "pd_concat ds =
     (case ds of
        [] \<Rightarrow> Inl ValueError
      | d # ds' \<Rightarrow> Inr \<lparr>df_columns = df_columns d, df_rows = concat (map df_rows (d # ds'))\<rparr>)"

text \<open>
  \<^verbatim>\<open>pd.DataFrame(dict)\<close> for a dict whose values are lists or scalars: a scalar is
  repeated down its column; all lists must have one length, else it is a ValueError,
  as it is when no value is a list.
\<close>

datatype column = Scalar string | Values "string list"

fun column_lengths :: "(string \<times> column) list \<Rightarrow> nat list" where
  "column_lengths [] = []"
| "column_lengths ((k, Scalar v) # cs) = column_lengths cs"
| "column_lengths ((k, Values vs) # cs) = length vs # column_lengths cs"

fun column_cell :: "nat \<Rightarrow> column \<Rightarrow> string option" where
  "column_cell i (Scalar v) = Some v"
| "column_cell i (Values vs) = Some (vs ! i)"

definition DataFrame_dict :: "(string \<times> column) list \<Rightarrow> exn + dataframe" where
  "DataFrame_dict cols =
     (case column_lengths cols of
        [] \<Rightarrow> Inl ValueError
      | n # ns \<Rightarrow>
          if list_ex (\<lambda>m. m \<noteq> n) ns then Inl ValueError
          else Inr \<lparr>df_columns = map fst cols,
                    df_rows = map (\<lambda>i. map (\<lambda>(k, c). column_cell i c) cols) [0..<n]\<rparr>)"

section \<open>The environment: network, parsers, file system, output\<close>

text \<open>
  What the script does not compute itself is taken from an environment that stays the
  same during a run: the response (or the exception) of \<^verbatim>\<open>requests.get\<close> for each
  URL, the two BeautifulSoup parsers, the markup that \<^verbatim>\<open>str(tag)\<close> renders for a
  tag, and the text that \<^verbatim>\<open>DataFrame.to_csv\<close> renders
  for a table, a separator and the \<^verbatim>\<open>index\<close> flag.
\<close>

record response =
  status_code :: int
  content :: string

record env =
  requests_get :: "string \<Rightarrow> exn + response"
  lxml :: "string \<Rightarrow> node"
  html_parser :: "string \<Rightarrow> node"
  tag_str :: "node \<Rightarrow> string"
  to_csv :: "dataframe \<Rightarrow> string \<Rightarrow> bool \<Rightarrow> string"

text \<open>
  The state that a run changes: the working directory, the directories and the files
  of the file system, and the trace of what the run did to the outside, in order:
  the HTTP requests it issued, its pauses (in milliseconds) and the lines it printed.
\<close>

datatype event = HttpGet string | Sleep nat | Print string

record world =
  cwd :: string
  dirs :: "string set"
  files :: "string \<rightharpoonup> string"
  trace :: "event list"

definition emit :: "event \<Rightarrow> world \<Rightarrow> world" where
  "emit e w = w\<lparr>trace := trace w @ [e]\<rparr>"

definition py_print :: "string \<Rightarrow> world \<Rightarrow> world" where
  "py_print s w = emit (Print s) w"

definition sleep :: "nat \<Rightarrow> world \<Rightarrow> world" where
  "sleep ms w = emit (Sleep ms) w"

definition http_get :: "env \<Rightarrow> string \<Rightarrow> world \<Rightarrow> (exn + response) \<times> world" where
  "http_get e url w = (requests_get e url, emit (HttpGet url) w)"

text \<open>
  Paths are resolved against the working directory and compared as written, up to
  trailing slashes; links and \<^verbatim>\<open>.\<close>/\<^verbatim>\<open>..\<close> components are not modelled. The root
  directory always exists and the empty path never does.
\<close>

definition only_slashes :: "string \<Rightarrow> bool" where
  "only_slashes p = list_all (\<lambda>c. c = CHR ''/'') p"

definition rstrip_slash :: "string \<Rightarrow> string" where
  "rstrip_slash p =
     (if only_slashes p then p else rev (dropWhile (\<lambda>c. c = CHR ''/'') (rev p)))"

definition resolve :: "world \<Rightarrow> string \<Rightarrow> string" where
  "resolve w p = rstrip_slash (os_path_join (cwd w) p)"

definition is_dir :: "world \<Rightarrow> string \<Rightarrow> bool" where
  "is_dir w p = (p \<noteq> [] \<and> (only_slashes (resolve w p) \<or> resolve w p \<in> dirs w))"

definition is_file :: "world \<Rightarrow> string \<Rightarrow> bool" where
  "is_file w p = (p \<noteq> [] \<and> \<not> endswith p ''/'' \<and> files w (resolve w p) \<noteq> None)"

definition os_path_exists :: "world \<Rightarrow> string \<Rightarrow> bool" where
  "os_path_exists w p = (is_dir w p \<or> is_file w p)"

text \<open>\<^verbatim>\<open>os.path.dirname\<close>: what stands before the last slash, without trailing slashes.\<close>

definition dirname :: "string \<Rightarrow> string" where
  "dirname p =
     (let head = take (length p - length (takeWhile (\<lambda>c. c \<noteq> CHR ''/'') (rev p))) p
      in if head \<noteq> [] \<and> \<not> only_slashes head then rstrip_slash head else head)"

text \<open>The directory itself and the directories above it, the outermost first.\<close>

function ancestors :: "string \<Rightarrow> string list" where
  "ancestors p =
     (if p = [] \<or> only_slashes p \<or> length (dirname p) \<ge> length p then []
      else ancestors (dirname p) @ [p])"
  by pat_completeness auto
termination
  by (relation "measure length") auto

text \<open>
  \<^verbatim>\<open>os.makedirs(p)\<close> creates the directory and the missing ones above it. It raises
  FileNotFoundError for the empty path, FileExistsError when the path exists (also
  when it is written with a trailing slash and names a file), and NotADirectoryError
  when a file stands where a directory above it is needed.
\<close>

definition os_makedirs :: "string \<Rightarrow> world \<Rightarrow> (exn + unit) \<times> world" where
  "os_makedirs p w =
     (if p = [] then (Inl FileNotFoundError, w)
      else if os_path_exists w p \<or> files w (resolve w p) \<noteq> None then (Inl FileExistsError, w)
      else if list_ex (\<lambda>a. files w a \<noteq> None) (ancestors (resolve w p))
        then (Inl NotADirectoryError, w)
      else (Inr (), w\<lparr>dirs := dirs w \<union> set (ancestors (resolve w p))\<rparr>))"

text \<open>
  Opening a file for writing and writing \<open>data\<close> to it, as \<^verbatim>\<open>open(p, "wb")\<close> with
  \<^verbatim>\<open>shutil.copyfileobj\<close> does. The path must not name a directory, no file may stand
  where a directory above it is needed, and the file's directory must exist.
\<close>

definition write_file :: "string \<Rightarrow> string \<Rightarrow> world \<Rightarrow> (exn + unit) \<times> world" where
  "write_file p data w =
     (if p = [] then (Inl FileNotFoundError, w)
      else if endswith p ''/'' \<or> is_dir w p then (Inl IsADirectoryError, w)
      else if list_ex (\<lambda>a. files w a \<noteq> None) (ancestors (dirname (resolve w p)))
        then (Inl NotADirectoryError, w)
      else if \<not> (only_slashes (dirname (resolve w p)) \<or> dirname (resolve w p) \<in> dirs w)
        then (Inl FileNotFoundError, w)
      else (Inr (), w\<lparr>files := (files w)(resolve w p \<mapsto> data)\<rparr>))"

text \<open>
  \<^verbatim>\<open>df.to_csv(p)\<close> with the rendered text \<open>data\<close>: pandas first checks that the
  directory of the path is a directory and raises OSError when it is not; then the
  file is opened and written as above.
\<close>

definition to_csv_file :: "string \<Rightarrow> string \<Rightarrow> world \<Rightarrow> (exn + unit) \<times> world" where
  "to_csv_file p data w =
     (if p \<noteq> [] \<and> \<not> (only_slashes (dirname (resolve w p)) \<or> dirname (resolve w p) \<in> dirs w)
      then (Inl OSError, w)
      else write_file p data w)"

section \<open>Reading and writing data\<close>

definition df2str :: "env \<Rightarrow> dataframe \<Rightarrow> string \<Rightarrow> string" where
  "df2str e df sep = to_csv e df sep False"

definition write_data ::
  "env \<Rightarrow> dataframe \<Rightarrow> string \<Rightarrow> string \<Rightarrow> string \<Rightarrow> bool \<Rightarrow> world \<Rightarrow> (exn + string) \<times> world"
where
  "write_data e df file_name proj_dir sep index w =
     (case (if \<not> os_path_exists w proj_dir then os_makedirs proj_dir w else (Inr (), w)) of
        (Inl x, w1) \<Rightarrow> (Inl x, w1)
      | (Inr u, w1) \<Rightarrow>
          (let csv_path = os_path_join proj_dir file_name in
           case to_csv_file csv_path (to_csv e df sep index) w1 of
             (Inl x, w2) \<Rightarrow> (Inl x, w2)
           | (Inr u', w2) \<Rightarrow> (Inr csv_path, w2)))"

section \<open>Downloading an image\<close>

text \<open>
  \<^verbatim>\<open>save_img_from_url(url, outdir)\<close>. The result is \<open>Some filename\<close> when the image was
  saved and \<open>None\<close> when the server did not answer 200. The pause of 0.01 seconds is
  10 milliseconds.
\<close>

definition download_failed :: "string \<Rightarrow> string" where
  "download_failed url = ''[WARNING:] Download for product image at url ('' @ url @ '') failed.''"

definition save_img_from_url :: "env \<Rightarrow> string \<Rightarrow> string \<Rightarrow> world \<Rightarrow> (exn + string option) \<times> world"
where
  "save_img_from_url e url outdir w =
     (let filename = os_path_join outdir (last (str_split ''/'' url)) in
      case http_get e url w of
        (Inl x, w1) \<Rightarrow> (Inl x, w1)
      | (Inr r, w1) \<Rightarrow>
          (let w2 = sleep 10 w1 in
           if status_code r = 200 then
             (case (if \<not> os_path_exists w2 outdir then os_makedirs outdir w2 else (Inr (), w2)) of
                (Inl x, w3) \<Rightarrow> (Inl x, w3)
              | (Inr u, w3) \<Rightarrow>
                  (case write_file filename (content r) w3 of
                     (Inl x, w4) \<Rightarrow> (Inl x, w4)
                   | (Inr u', w4) \<Rightarrow> (Inr (Some filename), w4)))
           else (Inr None, py_print (download_failed url) w2)))"

section \<open>The Gedore site: \<^verbatim>\<open>process_gedore\<close>\<close>

text \<open>The class names and constants that \<^verbatim>\<open>process_gedore\<close> assigns first.\<close>

abbreviation class_scroll_button :: string where "class_scroll_button \<equiv> ''show-more''"
abbreviation class_nr_pages :: string where "class_nr_pages \<equiv> ''result-text''"
abbreviation manufacturer :: string where "manufacturer \<equiv> ''Gedore''"
abbreviation class_product_link :: string where "class_product_link \<equiv> ''teaser-link''"
abbreviation class_product_description :: string where "class_product_description \<equiv> ''description''"
abbreviation class_product_details :: string where "class_product_details \<equiv> ''product-accordion''"
abbreviation class_product_images :: string where "class_product_images \<equiv> ''slider-image''"
abbreviation class_ean :: string where "class_ean \<equiv> ''ean''"
abbreviation pre_ean :: string where "pre_ean \<equiv> ''EAN''"
abbreviation class_article_name :: string where "class_article_name \<equiv> ''article-description''"
abbreviation class_article_number :: string where "class_article_number \<equiv> ''code-number''"
abbreviation class_dkm_number :: string where "class_dkm_number \<equiv> ''article-number''"
abbreviation class_uvp :: string where "class_uvp \<equiv> ''price''"
abbreviation content_columns :: "string list" where
  "content_columns \<equiv> [''group'', ''info'', ''value'']"
abbreviation img_final_dir :: string where "img_final_dir \<equiv> ''img''"
abbreviation csv_final_dir :: string where "csv_final_dir \<equiv> ''csv''"

definition url_domain :: "string \<Rightarrow> string" where
  "url_domain url =
     (if startswith url ''http'' then str_join ''/'' (take 3 (str_split_max ''/'' 3 url))
      else hd (str_split ''/'' url))"

definition url_page_format :: "string \<Rightarrow> int \<Rightarrow> string \<Rightarrow> string" where
  "url_page_format url page pagesize = url @ ''?page='' @ str_int page @ ''&pagesize='' @ pagesize"

text \<open>A list comprehension whose element expression can raise stops at the first exception.\<close>

fun map_exn :: "('a \<Rightarrow> exn + 'b) \<Rightarrow> 'a list \<Rightarrow> exn + 'b list" where
  "map_exn f [] = Inr []"
| "map_exn f (x # xs) =
     (case f x of
        Inl e \<Rightarrow> Inl e
      | Inr y \<Rightarrow> (case map_exn f xs of Inl e \<Rightarrow> Inl e | Inr ys \<Rightarrow> Inr (y # ys)))"

subsection \<open>\<^verbatim>\<open>process_product_listing\<close>\<close>

record listing =
  article_name :: "string list"
  article_number :: "string list"
  dkm_nr :: "string list"
  product_urls_list :: "string list"

definition process_product_listing :: "node \<Rightarrow> exn + listing" where
  "process_product_listing bs_obj =
     (case map_exn (\<lambda>p. tag_get p ''href'')
             (find_all ''a'' (Some class_product_link) [''href''] bs_obj) of
        Inl x \<Rightarrow> Inl x
      | Inr urls \<Rightarrow>
          Inr \<lparr>article_name =
                 map (\<lambda>p. strip (get_text p)) (find_all ''div'' (Some class_article_name) [] bs_obj),
               article_number =
                 map (\<lambda>p. strip (get_text p)) (find_all ''span'' (Some class_article_number) [] bs_obj),
               dkm_nr =
                 map (\<lambda>p. strip (get_text p)) (find_all ''span'' (Some class_dkm_number) [] bs_obj),
               product_urls_list = urls\<rparr>)"

subsection \<open>\<^verbatim>\<open>process_details\<close>\<close>

text \<open>
  The loop over the \<^verbatim>\<open>gedore-list\<close> lists, with the loop index \<open>i\<close>: one table per
  list, whose rows are the header \<open>tables[i]\<close> followed by the parts of each line.
\<close>

fun details_contents :: "string list \<Rightarrow> nat \<Rightarrow> node list \<Rightarrow> exn + dataframe list" where
  "details_contents tables i [] = Inr []"
| "details_contents tables i (a # as) =
     (if length tables \<le> i then Inl IndexError
      else
        (case DataFrame_rows
                (map (\<lambda>el. [tables ! i] @ str_split '': '' el)
                   (str_split [CHR 0x0A] (strip (get_text a))))
                content_columns of
           Inl x \<Rightarrow> Inl x
         | Inr cur \<Rightarrow>
             (case details_contents tables (Suc i) as of
                Inl x \<Rightarrow> Inl x
              | Inr rest \<Rightarrow> Inr (cur # rest))))"

definition process_details :: "node \<Rightarrow> exn + dataframe" where
  "process_details bs_prod =
     (case find_bs ''div'' (Some class_product_details) [] bs_prod of
        None \<Rightarrow> Inl AttributeError
      | Some accordion \<Rightarrow>
          (case find_bs ''ul'' None [] accordion of
             None \<Rightarrow> Inl AttributeError
           | Some html_list \<Rightarrow>
               (let tables = map (\<lambda>header. strip (get_text header)) (find_all ''a'' None [] html_list) in
                case details_contents tables 0 (find_all ''ul'' (Some ''gedore-list'') [] html_list) of
                  Inl x \<Rightarrow> Inl x
                | Inr contents \<Rightarrow> pd_concat contents)))"

subsection \<open>\<^verbatim>\<open>process_prod_page\<close>\<close>

text \<open>
  \<^verbatim>\<open>img_dir\<close> is a string or \<^verbatim>\<open>None\<close>; \<^verbatim>\<open>if img_dir\<close> holds for a non-empty string.
  Likewise \<^verbatim>\<open>if cur_img\<close> holds for a non-empty file name.
\<close>

definition truthy :: "string option \<Rightarrow> bool" where
  "truthy s = (case s of None \<Rightarrow> False | Some v \<Rightarrow> v \<noteq> [])"

text \<open>
  The loop over \<^verbatim>\<open>img_urls\<close>: each image is downloaded into \<open>outdir\<close>; the names of
  the saved ones are collected, and for the others the page's URL is printed.
\<close>

fun download_images ::
  "env \<Rightarrow> string \<Rightarrow> string \<Rightarrow> string list \<Rightarrow> string list \<Rightarrow> world \<Rightarrow> (exn + string list) \<times> world"
where
  "download_images e product_url outdir [] downloaded_images w = (Inr downloaded_images, w)"
| "download_images e product_url outdir (img # imgs) downloaded_images w =
     (case save_img_from_url e img outdir w of
        (Inl x, w1) \<Rightarrow> (Inl x, w1)
      | (Inr cur_img, w1) \<Rightarrow>
          if truthy cur_img
          then download_images e product_url outdir imgs (downloaded_images @ [the cur_img]) w1
          else download_images e product_url outdir imgs downloaded_images (py_print product_url w1))"

record prod_page =
  pp_ean :: string
  pp_uvp :: string
  pp_description :: string
  pp_details :: string
  pp_img_urls :: "string list"
  pp_downloaded_images :: "string list"

text \<open>
  The part of \<^verbatim>\<open>process_prod_page\<close> after the images: the price, with \<^verbatim>\<open>"NA"\<close> when
  the page has none, the EAN, the description and the details.
\<close>

definition extract_fields ::
  "env \<Rightarrow> string option \<Rightarrow> node \<Rightarrow> string list \<Rightarrow> string list \<Rightarrow> world \<Rightarrow> (exn + prod_page) \<times> world"
where
  "extract_fields e img_dir cur_bs img_urls downloaded_images w =
     (let uvp_prod = (case find_bs ''span'' (Some class_uvp) [] cur_bs of
                        Some t \<Rightarrow> strip (get_text t)
                      | None \<Rightarrow> ''NA'') in
      case find_bs ''div'' (Some class_ean) [] cur_bs of
        None \<Rightarrow> (Inl AttributeError, w)
      | Some ean_tag \<Rightarrow>
          (let ean = strip (str_replace pre_ean [] (get_text ean_tag)) in
           case find_bs ''div'' (Some class_product_description) [] cur_bs of
             None \<Rightarrow> (Inl AttributeError, w)
           | Some description_tag \<Rightarrow>
               (let description = (case find_bs ''ul'' None [] description_tag of
                                     None \<Rightarrow> ''None''
                                   | Some ul \<Rightarrow> tag_str e ul) in
                case process_details cur_bs of
                  Inl x \<Rightarrow> (Inl x, w)
                | Inr details \<Rightarrow>
                    (case (if truthy img_dir
                           then write_data e details (ean @ ''.csv'')
                                  (os_path_join (the img_dir) csv_final_dir) ''|'' False w
                           else (Inr (df2str e details ''|''), w)) of
                       (Inl x, w1) \<Rightarrow> (Inl x, w1)
                     | (Inr details_str, w1) \<Rightarrow>
                         (Inr \<lparr>pp_ean = ean, pp_uvp = uvp_prod, pp_description = description,
                               pp_details = details_str, pp_img_urls = img_urls,
                               pp_downloaded_images = downloaded_images\<rparr>, w1)))))"

text \<open>
  The image URLs of a page: the site's domain followed by each image's \<^verbatim>\<open>src\<close> up
  to its first question mark.
\<close>

definition image_urls :: "string \<Rightarrow> node \<Rightarrow> exn + string list" where
  "image_urls domain cur_bs =
     map_exn (\<lambda>i. map_sum id (\<lambda>src. domain @ hd (str_split_max ''?'' 1 src)) (tag_get i ''src''))
       (find_all ''img'' (Some class_product_images) [''src''] cur_bs)"

definition process_prod_page ::
  "env \<Rightarrow> string \<Rightarrow> string option \<Rightarrow> string \<Rightarrow> world \<Rightarrow> (exn + prod_page) \<times> world"
where
  "process_prod_page e domain img_dir product_url w =
     (case http_get e product_url w of
        (Inl x, w1) \<Rightarrow> (Inl x, w1)
      | (Inr r, w1) \<Rightarrow>
          (let cur_bs = lxml e (content r); w2 = sleep 10 w1 in
           case image_urls domain cur_bs of
             Inl x \<Rightarrow> (Inl x, w2)
           | Inr img_urls \<Rightarrow>
               (case (if truthy img_dir
                      then download_images e product_url (os_path_join (the img_dir) img_final_dir)
                             img_urls [] w2
                      else (Inr [], w2)) of
                  (Inl x, w3) \<Rightarrow> (Inl x, w3)
                | (Inr downloaded_images, w3) \<Rightarrow>
                    extract_fields e img_dir cur_bs img_urls downloaded_images w3)))"

subsection \<open>The automated browser (Selenium)\<close>

text \<open>
  The browser is a state machine given from outside: \<open>'b\<close> is its state and \<open>'e\<close> a
  handle on an element of the page. \<open>driver_get\<close> starts the headless browser and
  loads a URL; \<open>wait_until_located\<close> is \<^verbatim>\<open>WebDriverWait(driver, 20).until(...)\<close> with
  \<^verbatim>\<open>presence_of_element_located\<close>. Each operation can raise.
\<close>

datatype locator = ByClassName string | ByCssSelector string | ById string

record ('b, 'e) webdriver =
  driver_get :: "string \<Rightarrow> exn + 'b"
  wait_until_located :: "locator \<Rightarrow> 'b \<Rightarrow> exn + 'b"
  find_element :: "locator \<Rightarrow> 'b \<Rightarrow> exn + 'e"
  click :: "'e \<Rightarrow> 'b \<Rightarrow> exn + 'b"
  execute_script :: "string \<Rightarrow> 'e \<Rightarrow> 'b \<Rightarrow> exn + 'b"
  page_source :: "'b \<Rightarrow> string"

subsection \<open>The "show more" loop\<close>

definition show_more_progress :: "nat \<Rightarrow> string" where
  "show_more_progress clicks =
     [CHR 0x0D] @ ''Show More Products: ['' @ replicate clicks CHR ''#'' @ replicate 25 CHR ''-''
       @ ''] '' @ str_nat clicks @ '' % ''"

text \<open>
  \<^verbatim>\<open>while True\<close>: print the progress, click the button, count the click and pause for a
  second; an ElementNotInteractableException from the click leaves the loop, any
  other exception leaves the function. The loop has no other exit, so it is a partial
  function: \<open>None\<close> is the run that never returns. It returns the number of clicks
  and the browser's last state.
\<close>

partial_function (option) show_more_loop ::
  "('b, 'e) webdriver \<Rightarrow> 'e \<Rightarrow> nat \<Rightarrow> 'b \<Rightarrow> world \<Rightarrow> ((exn + nat \<times> 'b) \<times> world) option"
where
  "show_more_loop drv button clicks b w =
     (case click drv button b of
        Inl x \<Rightarrow>
          if x = ElementNotInteractableException
          then Some (Inr (clicks, b), py_print (show_more_progress clicks) w)
          else Some (Inl x, py_print (show_more_progress clicks) w)
      | Inr b' \<Rightarrow>
          show_more_loop drv button (Suc clicks) b'
            (sleep 1000 (py_print (show_more_progress clicks) w)))"

subsection \<open>The numbered pages\<close>

text \<open>
  The loop \<^verbatim>\<open>for page in range(1, page_nr+1)\<close>, over the list of page numbers: each
  page's URL is requested and parsed, followed by a pause.
\<close>

fun fetch_pages ::
  "env \<Rightarrow> string \<Rightarrow> string \<Rightarrow> int list \<Rightarrow> node list \<Rightarrow> world \<Rightarrow> (exn + node list) \<times> world"
where
  "fetch_pages e url pagesize [] bs w = (Inr bs, w)"
| "fetch_pages e url pagesize (page # pages) bs w =
     (let page_url = url_page_format (hd (str_split ''?'' url)) page pagesize in
      case http_get e page_url w of
        (Inl x, w1) \<Rightarrow> (Inl x, w1)
      | (Inr r, w1) \<Rightarrow>
          fetch_pages e url pagesize pages (bs @ [lxml e (content r)]) (sleep 10 w1))"

text \<open>
  The currently selected page size and the number of pages, as the listing shows
  them: a missing tag is an AttributeError where \<^verbatim>\<open>None\<close> is dereferenced and a
  TypeError where it is subscripted.
\<close>

definition read_pagesize :: "node \<Rightarrow> exn + string" where
  "read_pagesize bs =
     (case find_bs ''li'' (Some ''selected'') [] bs of
        None \<Rightarrow> Inl AttributeError
      | Some li \<Rightarrow>
          (case find_bs ''button'' None [''value''] li of
             None \<Rightarrow> Inl TypeError
           | Some button \<Rightarrow> tag_get button ''value''))"

definition read_page_nr :: "node \<Rightarrow> exn + int" where
  "read_page_nr bs =
     (case find_bs ''li'' (Some class_nr_pages) [] bs of
        None \<Rightarrow> Inl AttributeError
      | Some li \<Rightarrow>
          (case find_bs ''span'' None [] li of
             None \<Rightarrow> Inl AttributeError
           | Some span \<Rightarrow>
               (case str_split '' von '' (get_text span) of
                  a # b # rest \<Rightarrow> (case py_int b of None \<Rightarrow> Inl ValueError | Some n \<Rightarrow> Inr n)
                | _ \<Rightarrow> Inl IndexError)))"

subsection \<open>The listing, from one document or from the list of pages\<close>

datatype soup = Single node | Pages "node list"

fun collect_listings :: "node list \<Rightarrow> listing \<Rightarrow> exn + listing" where
  "collect_listings [] acc = Inr acc"
| "collect_listings (bs_cur # rest) acc =
     (case process_product_listing bs_cur of
        Inl x \<Rightarrow> Inl x
      | Inr cur \<Rightarrow>
          collect_listings rest
            \<lparr>article_name = article_name acc @ article_name cur,
             article_number = article_number acc @ article_number cur,
             dkm_nr = dkm_nr acc @ dkm_nr cur,
             product_urls_list = product_urls_list acc @ product_urls_list cur\<rparr>)"

definition extract_listing :: "soup \<Rightarrow> exn + listing" where
  "extract_listing bs =
     (case bs of
        Pages pages \<Rightarrow>
          collect_listings pages
            \<lparr>article_name = [], article_number = [], dkm_nr = [], product_urls_list = []\<rparr>
      | Single doc \<Rightarrow> process_product_listing doc)"

subsection \<open>Traversing the listing\<close>

text \<open>
  The progress bar around \<^verbatim>\<open>range(1, page_nr+1)\<close> takes the length of the range when
  it is created, which raises OverflowError for a length above the largest index,
  \<open>2 ^ 63 - 1\<close>.
\<close>

definition max_len :: int where
  "max_len = 9223372036854775808"

text \<open>
  The first part of \<^verbatim>\<open>process_gedore\<close>: the listing is requested, and then, by what
  its markup shows, either the "show more" button is clicked in the browser until it
  cannot be clicked, or the numbered pages are requested one by one, or the listing is
  taken as it is.
\<close>

definition traverse_listing ::
  "env \<Rightarrow> ('b, 'e) webdriver \<Rightarrow> string \<Rightarrow> world \<Rightarrow> ((exn + soup) \<times> world) option"
where
  "traverse_listing e drv url w =
     (case http_get e url w of
        (Inl x, w1) \<Rightarrow> Some (Inl x, w1)
      | (Inr r, w1) \<Rightarrow>
          (let bs = lxml e (content r) in
           if find_all ''a'' (Some class_scroll_button) [] bs \<noteq> [] then
             (case driver_get drv url of
                Inl x \<Rightarrow> Some (Inl x, w1)
              | Inr b0 \<Rightarrow>
                  (case wait_until_located drv (ByClassName class_scroll_button) b0 of
                     Inl x \<Rightarrow> Some (Inl x, w1)
                   | Inr b1 \<Rightarrow>
                       (case find_element drv (ByClassName class_scroll_button) b1 of
                          Inl x \<Rightarrow> Some (Inl x, w1)
                        | Inr button \<Rightarrow>
                            (case show_more_loop drv button 0 b1 w1 of
                               None \<Rightarrow> None
                             | Some (Inl x, w2) \<Rightarrow> Some (Inl x, w2)
                             | Some (Inr (clicks, b2), w2) \<Rightarrow>
                                 Some (Inr (Single (html_parser e (page_source drv b2))), w2)))))
           else if find_bs ''li'' (Some class_nr_pages) [] bs \<noteq> None then
             (case read_pagesize bs of
                Inl x \<Rightarrow> Some (Inl x, w1)
              | Inr pagesize \<Rightarrow>
                  (case read_page_nr bs of
                     Inl x \<Rightarrow> Some (Inl x, w1)
                   | Inr page_nr \<Rightarrow>
                       if max_len \<le> page_nr
                       then Some (Inl OverflowError,
                                  py_print ''Creating bs objects for product listing ...'' w1)
                       else
                       (case fetch_pages e url pagesize [1..page_nr] []
                               (py_print ''Creating bs objects for product listing ...'' w1) of
                          (Inl x, w2) \<Rightarrow> Some (Inl x, w2)
                        | (Inr pages, w2) \<Rightarrow> Some (Inr (Pages pages), w2))))
           else Some (Inr (Single bs), w1)))"

subsection \<open>The product pages and the table\<close>

record columns =
  ean :: "string list"
  uvp :: "string list"
  description :: "string list"
  details :: "string list"
  product_img_urls :: "string list"
  downloaded_imgs :: "string list"

text \<open>
  The loop over \<^verbatim>\<open>product_urls\<close>. As in the source, both the EAN and the price of a
  page are appended to the list \<open>ean\<close>, and nothing is appended to \<open>uvp\<close>.
\<close>

fun process_products ::
  "env \<Rightarrow> string \<Rightarrow> string option \<Rightarrow> string list \<Rightarrow> columns \<Rightarrow> world \<Rightarrow> (exn + columns) \<times> world"
where
  "process_products e domain img_dir [] acc w = (Inr acc, w)"
| "process_products e domain img_dir (product_url # rest) acc w =
     (case process_prod_page e domain img_dir product_url w of
        (Inl x, w1) \<Rightarrow> (Inl x, w1)
      | (Inr cur, w1) \<Rightarrow>
          process_products e domain img_dir rest
            \<lparr>ean = ean acc @ [pp_ean cur] @ [pp_uvp cur],
             uvp = uvp acc,
             description = description acc @ [pp_description cur],
             details = details acc @ [pp_details cur],
             product_img_urls = product_img_urls acc @ [str_join '' '' (pp_img_urls cur)],
             downloaded_imgs = downloaded_imgs acc @ [str_join '' '' (pp_downloaded_images cur)]\<rparr>
            w1)"

definition gedore_df :: "listing \<Rightarrow> columns \<Rightarrow> exn + dataframe" where
  "gedore_df l c =
     DataFrame_dict
       [(''manufacturer'', Scalar manufacturer),
        (''ean-code'', Values (ean c)),
        (''articlename_manufacturer'', Values (article_name l)),
        (''articlenumber_manufacturer'', Values (article_number l)),
        (''dkm-code'', Values (dkm_nr l)),
        (''uvp'', Values (uvp c)),
        (''description'', Values (description c)),
        (''details'', Values (details c)),
        (''product_img_urls'', Values (product_img_urls c)),
        (''downloaded_imgs'', Values (downloaded_imgs c))]"

definition process_gedore ::
  "env \<Rightarrow> ('b, 'e) webdriver \<Rightarrow> string \<Rightarrow> string option \<Rightarrow> world \<Rightarrow> ((exn + dataframe) \<times> world) option"
where
  "process_gedore e drv url img_dir w =
     (case traverse_listing e drv url w of
        None \<Rightarrow> None
      | Some (Inl x, w1) \<Rightarrow> Some (Inl x, w1)
      | Some (Inr bs, w1) \<Rightarrow>
          (case extract_listing bs of
             Inl x \<Rightarrow> Some (Inl x, w1)
           | Inr l \<Rightarrow>
               (case process_products e (url_domain url) img_dir (product_urls_list l)
                       \<lparr>ean = [], uvp = [], description = [], details = [],
                        product_img_urls = [], downloaded_imgs = []\<rparr>
                       (py_print ([CHR 0x0A] @ ''Extracting info from product pages ...'') w1) of
                  (Inl x, w2) \<Rightarrow> Some (Inl x, w2)
                | (Inr c, w2) \<Rightarrow> Some (gedore_df l c, w2))))"

section \<open>The Tooler site: the traversal of \<^verbatim>\<open>process_tooler\<close>\<close>

text \<open>
  \<^verbatim>\<open>process_tooler\<close> is unfinished in the source: it collects the product links and
  returns nothing. Its traversal of the listing is modelled here, with the
  randomly generated request headers left out. The two selectors are CSS selectors.
\<close>

abbreviation tooler_class_scroll_button :: string where
  "tooler_class_scroll_button \<equiv> ''div.amscroll-load-button''"
abbreviation tooler_class_product_link :: string where
  "tooler_class_product_link \<equiv> ''a.product-item-link''"

text \<open>
  The scroll-and-click loop: find the button, scroll to it, click it, pause, parse the
  page, append its product links, count and print the click, and leave when
  \<^verbatim>\<open>find_all('button', class_=class_scroll_button)\<close> finds nothing in the parsed page.
\<close>

partial_function (option) scroll_loop ::
  "env \<Rightarrow> ('b, 'e) webdriver \<Rightarrow> nat \<Rightarrow> string list \<Rightarrow> 'b \<Rightarrow> world
     \<Rightarrow> ((exn + string list \<times> nat \<times> 'b) \<times> world) option"
where
  "scroll_loop e drv clicks product_urls b w =
     (case find_element drv (ByCssSelector tooler_class_scroll_button) b of
        Inl x \<Rightarrow> Some (Inl x, w)
      | Inr button \<Rightarrow>
          (case execute_script drv ''arguments[0].scrollIntoView();'' button b of
             Inl x \<Rightarrow> Some (Inl x, w)
           | Inr b1 \<Rightarrow>
               (case click drv button b1 of
                  Inl x \<Rightarrow> Some (Inl x, w)
                | Inr b2 \<Rightarrow>
                    (case map_exn (\<lambda>p. tag_get p ''href'')
                            (find_all ''a'' (Some tooler_class_product_link) [''href'']
                               (html_parser e (page_source drv b2))) of
                       Inl x \<Rightarrow> Some (Inl x, sleep 1000 w)
                     | Inr new_urls \<Rightarrow>
                         if find_all ''button'' (Some tooler_class_scroll_button) []
                              (html_parser e (page_source drv b2)) = []
                         then Some (Inr (product_urls @ new_urls, Suc clicks, b2),
                                    py_print (str_nat (Suc clicks)) (sleep 1000 w))
                         else scroll_loop e drv (Suc clicks) (product_urls @ new_urls) b2
                                (py_print (str_nat (Suc clicks)) (sleep 1000 w))))))"

definition tooler_product_urls ::
  "env \<Rightarrow> ('b, 'e) webdriver \<Rightarrow> (string \<rightharpoonup> string) \<Rightarrow> string \<Rightarrow> world
     \<Rightarrow> ((exn + string list) \<times> world) option"
where
  "tooler_product_urls e drv term_url_dict key w =
     (case term_url_dict key of
        None \<Rightarrow> Some (Inl KeyError, w)
      | Some url \<Rightarrow>
          (case http_get e url w of
             (Inl x, w1) \<Rightarrow> Some (Inl x, w1)
           | (Inr r, w1) \<Rightarrow>
               (let bs = lxml e (content r) in
                case map_exn (\<lambda>p. tag_get p ''href'') (select tooler_class_product_link bs) of
                  Inl x \<Rightarrow> Some (Inl x, w1)
                | Inr product_urls \<Rightarrow>
                    if select tooler_class_scroll_button bs \<noteq> [] then
                      (case driver_get drv url of
                         Inl x \<Rightarrow> Some (Inl x, w1)
                       | Inr b0 \<Rightarrow>
                           (case wait_until_located drv (ByCssSelector tooler_class_scroll_button) b0 of
                              Inl x \<Rightarrow> Some (Inl x, w1)
                            | Inr b1 \<Rightarrow>
                                (case find_element drv (ById ''popin_tc_privacy_button'') b1 of
                                   Inl x \<Rightarrow> Some (Inl x, w1)
                                 | Inr privacy_button \<Rightarrow>
                                     (case click drv privacy_button b1 of
                                        Inl x \<Rightarrow> Some (Inl x, w1)
                                      | Inr b2 \<Rightarrow>
                                          (case scroll_loop e drv 0 product_urls b2 w1 of
                                             None \<Rightarrow> None
                                           | Some (Inl x, w2) \<Rightarrow> Some (Inl x, w2)
                                           | Some (Inr (urls, clicks, b3), w2) \<Rightarrow>
                                               Some (Inr urls, w2))))))
                    else Some (Inr product_urls, w1))))"

section \<open>A small shop, for concrete runs\<close>

text \<open>
  An environment used to run the definitions on concrete input: a listing with one
  product, the same listing behind a "show more" button and behind numbered pages, two
  product pages (the second without a price, and with an image that the server does
  not deliver), a listing of three products whose second page has no EAN, a product
  page whose description has no list, a listing that announces \<open>2 ^ 63\<close> pages, a
  listing without products, and a Tooler search result.
\<close>

definition ex_listing_doc :: node where
  "ex_listing_doc =
     Tag ''[document]'' [] []
       [Tag ''div'' [''article-description''] [] [NavigableString ''Torque wrench''],
        Tag ''span'' [''code-number''] [] [NavigableString ''4550-05''],
        Tag ''span'' [''article-number''] [] [NavigableString ''7682760''],
        Tag ''a'' [''teaser-link''] [(''href'', ''http://shop.test/p1'')] []]"

definition ex_listing_doc2 :: node where
  "ex_listing_doc2 =
     Tag ''[document]'' [] []
       [Tag ''a'' [''teaser-link''] [(''href'', ''http://shop.test/p2'')] []]"

definition ex_more_doc :: node where
  "ex_more_doc =
     Tag ''[document]'' [] []
       [Tag ''a'' [''teaser-link''] [(''href'', ''http://shop.test/p1'')] [],
        Tag ''a'' [''show-more''] [] [NavigableString ''Show more'']]"

definition ex_numbered_doc :: node where
  "ex_numbered_doc =
     Tag ''[document]'' [] []
       [Tag ''li'' [''selected''] [] [Tag ''button'' [] [(''value'', ''24'')] [NavigableString ''24'']],
        Tag ''li'' [''result-text''] [] [Tag ''span'' [] [] [NavigableString ''Seite 1 von 2'']]]"

definition ex_details :: node where
  "ex_details =
     Tag ''div'' [''product-accordion''] []
       [Tag ''ul'' [] []
          [Tag ''li'' [] []
             [Tag ''a'' [] [] [NavigableString ''Technical data''],
              Tag ''ul'' [''gedore-list''] [] [NavigableString ''Length: 10 mm'']]]]"

definition ex_product_doc :: node where
  "ex_product_doc =
     Tag ''[document]'' [] []
       [Tag ''img'' [''slider-image''] [(''src'', ''/img/a.png?w=100'')] [],
        Tag ''img'' [''slider-image''] [(''src'', ''/img/b.png'')] [],
        Tag ''span'' [''price''] [] [NavigableString '' 12,50 ''],
        Tag ''div'' [''ean''] [] [NavigableString ''EAN 4010886''],
        Tag ''div'' [''description''] [] [Tag ''ul'' [] [] [NavigableString ''A wrench'']],
        ex_details]"

definition ex_product_doc2 :: node where
  "ex_product_doc2 =
     Tag ''[document]'' [] []
       [Tag ''img'' [''slider-image''] [(''src'', ''/img/b.png'')] [],
        Tag ''div'' [''ean''] [] [NavigableString ''EAN 4010887''],
        Tag ''div'' [''description''] [] [Tag ''ul'' [] [] [NavigableString ''A socket'']],
        ex_details]"

definition ex_listing_doc3 :: node where
  "ex_listing_doc3 =
     Tag ''[document]'' [] []
       [Tag ''a'' [''teaser-link''] [(''href'', ''http://shop.test/p1'')] [],
        Tag ''a'' [''teaser-link''] [(''href'', ''http://shop.test/p3'')] [],
        Tag ''a'' [''teaser-link''] [(''href'', ''http://shop.test/p2'')] []]"

definition ex_product_doc3 :: node where
  "ex_product_doc3 =
     Tag ''[document]'' [] []
       [Tag ''span'' [''price''] [] [NavigableString ''7,90''],
        Tag ''div'' [''description''] [] [Tag ''ul'' [] [] [NavigableString ''A bit'']],
        ex_details]"

definition ex_product_doc4 :: node where
  "ex_product_doc4 =
     Tag ''[document]'' [] []
       [Tag ''span'' [''price''] [] [NavigableString ''3,20''],
        Tag ''div'' [''ean''] [] [NavigableString ''EAN 4010888''],
        Tag ''div'' [''description''] [] [NavigableString ''A plain text''],
        ex_details]"

definition ex_huge_doc :: node where
  "ex_huge_doc =
     Tag ''[document]'' [] []
       [Tag ''li'' [''selected''] [] [Tag ''button'' [] [(''value'', ''24'')] [NavigableString ''24'']],
        Tag ''li'' [''result-text''] []
          [Tag ''span'' [] [] [NavigableString ''Seite 1 von 9223372036854775808'']]]"

definition ex_tooler_doc :: node where
  "ex_tooler_doc =
     Tag ''[document]'' [] []
       [Tag ''a'' [''product-item-link''] [(''href'', ''http://tooler.test/t1'')] [],
        Tag ''div'' [''amscroll-load-button''] [] [NavigableString ''Load more'']]"

definition ex_tooler_button_doc :: node where
  "ex_tooler_button_doc =
     Tag ''[document]'' [] []
       [Tag ''button'' [''div.amscroll-load-button''] [] [NavigableString ''Load more'']]"

definition ex_requests_get :: "string \<Rightarrow> exn + response" where
  "ex_requests_get url =
     (if url = ''http://shop.test/list'' then Inr \<lparr>status_code = 200, content = ''LIST''\<rparr>
      else if url = ''http://shop.test/more'' then Inr \<lparr>status_code = 200, content = ''MORE''\<rparr>
      else if url = ''http://shop.test/num?page=3'' then Inr \<lparr>status_code = 200, content = ''NUM''\<rparr>
      else if url = ''http://shop.test/num?page=1&pagesize=24''
        then Inr \<lparr>status_code = 200, content = ''LIST''\<rparr>
      else if url = ''http://shop.test/num?page=2&pagesize=24''
        then Inr \<lparr>status_code = 200, content = ''LIST2''\<rparr>
      else if url = ''http://shop.test/p1'' then Inr \<lparr>status_code = 200, content = ''P1''\<rparr>
      else if url = ''http://shop.test/p2'' then Inr \<lparr>status_code = 200, content = ''P2''\<rparr>
      else if url = ''http://shop.test/list3'' then Inr \<lparr>status_code = 200, content = ''LIST3''\<rparr>
      else if url = ''http://shop.test/p3'' then Inr \<lparr>status_code = 200, content = ''P3''\<rparr>
      else if url = ''http://shop.test/p4'' then Inr \<lparr>status_code = 200, content = ''P4''\<rparr>
      else if url = ''http://shop.test/huge'' then Inr \<lparr>status_code = 200, content = ''HUGE''\<rparr>
      else if url = ''http://shop.test/none'' then Inr \<lparr>status_code = 200, content = ''NONE''\<rparr>
      else if url = ''http://shop.test/img/a.png'' then Inr \<lparr>status_code = 200, content = ''PNG''\<rparr>
      else if url = ''http://shop.test/img/b.png'' then Inr \<lparr>status_code = 404, content = []\<rparr>
      else if url = ''http://tooler.test/search'' then Inr \<lparr>status_code = 200, content = ''TOOLER''\<rparr>
      else Inl ConnectionError)"

definition ex_parse :: "string \<Rightarrow> node" where
  "ex_parse s =
     (if s = ''LIST'' then ex_listing_doc
      else if s = ''LIST2'' then ex_listing_doc2
      else if s = ''MORE'' then ex_more_doc
      else if s = ''NUM'' then ex_numbered_doc
      else if s = ''P1'' then ex_product_doc
      else if s = ''P2'' then ex_product_doc2
      else if s = ''LIST3'' then ex_listing_doc3
      else if s = ''P3'' then ex_product_doc3
      else if s = ''P4'' then ex_product_doc4
      else if s = ''HUGE'' then ex_huge_doc
      else if s = ''TOOLER'' then ex_tooler_doc
      else if s = ''BUTTON'' then ex_tooler_button_doc
      else Tag ''[document]'' [] [] [])"

definition ex_to_csv :: "dataframe \<Rightarrow> string \<Rightarrow> bool \<Rightarrow> string" where
  "ex_to_csv df sep index =
     str_join [CHR 0x0A]
       (map (str_join sep) (df_columns df # map (map (case_option [] id)) (df_rows df)))"

definition ex_env :: env where
  "ex_env = \<lparr>requests_get = ex_requests_get, lxml = ex_parse, html_parser = ex_parse,
             tag_str = get_text, to_csv = ex_to_csv\<rparr>"

definition ex_world :: world where
  "ex_world = \<lparr>cwd = ''/home/user'', dirs = {''/home'', ''/home/user''}, files = Map.empty,
               trace = []\<rparr>"

text \<open>A second machine, with another working directory, older files and an earlier trace.\<close>

definition ex_world2 :: world where
  "ex_world2 = \<lparr>cwd = ''/srv/run'', dirs = {''/srv'', ''/srv/run'', ''/srv/run/out''},
                files = [''/srv/run/out/gedore.csv'' \<mapsto> ''old''],
                trace = [Print ''earlier run'']\<rparr>"

text \<open>
  A browser whose state counts the clicks made: \<open>on_click\<close> decides what a click does
  in each state, the page source stays \<open>src\<close>, and everything else succeeds.
\<close>

definition ex_browser :: "(nat \<Rightarrow> exn + nat) \<Rightarrow> string \<Rightarrow> (nat, unit) webdriver" where
  "ex_browser on_click src =
     \<lparr>driver_get = (\<lambda>url. Inr 0),
      wait_until_located = (\<lambda>l b. Inr b),
      find_element = (\<lambda>l b. Inr ()),
      click = (\<lambda>el b. on_click b),
      execute_script = (\<lambda>script el b. Inr b),
      page_source = (\<lambda>b. src)\<rparr>"

definition always_clickable :: "nat \<Rightarrow> exn + nat" where
  "always_clickable b = Inr (Suc b)"

definition clickable_until :: "nat \<Rightarrow> exn \<Rightarrow> nat \<Rightarrow> exn + nat" where
  "clickable_until n x b = (if b < n then Inr (Suc b) else Inl x)"

declare show_more_loop.simps [code]
declare scroll_loop.simps [code]

section \<open>Basic facts\<close>

lemma str_split_not_Nil: "str_split sep s \<noteq> []"
  by (induction sep s rule: str_split.induct) (auto split: list.splits)

subsection \<open>Images that the server does not deliver\<close>





section \<open>The claims\<close>




text \<open>
  Claim C10. For a URL that is delivered with status 200, \<^verbatim>\<open>save_img_from_url\<close> should
  create the output directory when it is missing, write the image there under the
  last segment of the URL and return that path. With the output directory \<^verbatim>\<open>""\<close>,
  the function's own default, the run below raises FileNotFoundError from
  \<^verbatim>\<open>os.makedirs("")\<close> instead, and no file is written.
\<close>

theorem save_img_default_outdir_raises:
  "requests_get ex_env ''http://shop.test/img/a.png'' = Inr \<lparr>status_code = 200, content = ''PNG''\<rparr>
   \<and> fst (save_img_from_url ex_env ''http://shop.test/img/a.png'' [] ex_world)
       = Inl FileNotFoundError
   \<and> files (snd (save_img_from_url ex_env ''http://shop.test/img/a.png'' [] ex_world))
         (resolve ex_world ''a.png'') = None"
  by code_simp

text \<open>
  Claim C1. The table that \<^verbatim>\<open>process_gedore\<close> returns should have one row per product
  page, with the EAN in the EAN column and the price in the price column. In the run
  below the listing has one product, whose page is read without error; the loop
  appends both the EAN and the price to the EAN list and leaves the price list empty,
  so the columns differ in length and building the table raises ValueError.
\<close>

theorem gedore_table_of_one_product_raises:
  "map_option fst (traverse_listing ex_env (ex_browser always_clickable ''LIST'')
       ''http://shop.test/list'' ex_world) = Some (Inr (Single ex_listing_doc))
   \<and> map_sum id product_urls_list (extract_listing (Single ex_listing_doc))
       = Inr [''http://shop.test/p1'']
   \<and> fst (process_products ex_env ''http://shop.test'' None [''http://shop.test/p1'']
            \<lparr>ean = [], uvp = [], description = [], details = [],
             product_img_urls = [], downloaded_imgs = []\<rparr> ex_world)
       = Inr \<lparr>ean = [''4010886'', ''12,50''], uvp = [],
              description = [''A wrench''],
              details = [''group|info|value'' @ [CHR 0x0A] @ ''Technical data|Length|10 mm''],
              product_img_urls = [''http://shop.test/img/a.png http://shop.test/img/b.png''],
              downloaded_imgs = [[]]\<rparr>
   \<and> map_option fst (process_gedore ex_env (ex_browser always_clickable ''LIST'')
       ''http://shop.test/list'' None ex_world) = Some (Inl ValueError)"
  by code_simp

text \<open>
  Claim C2. The scroll-and-click loop of \<^verbatim>\<open>process_tooler\<close> should go on, collecting
  the product links, while the load-more control is in the page. In the run below the
  page after the first click still holds the control and a product link, as the
  selectors that the function uses on entry find them; the test at the end of
  the loop body looks for a \<^verbatim>\<open>button\<close> tag whose class is the selector text itself,
  finds none, and the loop returns after one click with no link collected.
\<close>

theorem scroll_loop_leaves_while_button_present:
  "select tooler_class_scroll_button
       (html_parser ex_env (page_source (ex_browser always_clickable ''TOOLER'') 1))
     = [Tag ''div'' [''amscroll-load-button''] [] [NavigableString ''Load more'']]
   \<and> select tooler_class_product_link
       (html_parser ex_env (page_source (ex_browser always_clickable ''TOOLER'') 1))
     = [Tag ''a'' [''product-item-link''] [(''href'', ''http://tooler.test/t1'')] []]
   \<and> map_option fst (scroll_loop ex_env (ex_browser always_clickable ''TOOLER'') 0 [] 0 ex_world)
     = Some (Inr ([], 1, 1))"
  by code_simp

text \<open>
  Claim C8. A pause should follow every HTTP request of the program. In the trace of
  the run below, the request for the listing is followed by a printed line and the
  next request, with no pause in between; only the request for the product page is
  followed by the pause of 10 milliseconds.
\<close>

theorem no_pause_after_listing_request:
  "map_option (\<lambda>r. trace (snd r))
     (process_gedore ex_env (ex_browser always_clickable ''LIST'') ''http://shop.test/list'' None
        ex_world)
   = Some [HttpGet ''http://shop.test/list'',
           Print ([CHR 0x0A] @ ''Extracting info from product pages ...''),
           HttpGet ''http://shop.test/p1'', Sleep 10]"
  by code_simp

subsection \<open>The click loops\<close>

lemma show_more_loop_click_raises:
  assumes "click drv button b = Inl x"
  shows "show_more_loop drv button clicks b w =
    Some (if x = ElementNotInteractableException then Inr (clicks, b) else Inl x,
          py_print (show_more_progress clicks) w)"
  using assms by (subst show_more_loop.simps) simp

lemma show_more_loop_click_ok:
  assumes "click drv button b = Inr b'"
  shows "show_more_loop drv button clicks b w =
    show_more_loop drv button (Suc clicks) b' (sleep 1000 (py_print (show_more_progress clicks) w))"
  using assms by (subst show_more_loop.simps) simp

lemma show_more_loop_clicks_then_raises:
  assumes "\<forall>i<k. click drv button (bs i) = Inr (bs (Suc i))"
    and "click drv button (bs k) = Inl x"
  shows "show_more_loop drv button c (bs 0) w =
    Some (if x = ElementNotInteractableException then Inr (c + k, bs k) else Inl x,
          w\<lparr>trace := trace w @
             concat (map (\<lambda>i. [Print (show_more_progress (c + i)), Sleep 1000]) [0..<k]) @
             [Print (show_more_progress (c + k))]\<rparr>)"
  using assms
proof (induction k arbitrary: c bs w)
  case 0
  then show ?case
    by (simp add: show_more_loop_click_raises py_print_def emit_def)
next
  case (Suc k)
  have first: "click drv button (bs 0) = Inr (bs (Suc 0))"
    using Suc.prems(1) by simp
  have rest: "\<forall>i<k. click drv button (bs (Suc i)) = Inr (bs (Suc (Suc i)))"
    using Suc.prems(1) by simp
  have ih: "show_more_loop drv button (Suc c) (bs (Suc 0)) w' =
    Some (if x = ElementNotInteractableException then Inr (Suc c + k, bs (Suc k)) else Inl x,
          w'\<lparr>trace := trace w' @
             concat (map (\<lambda>i. [Print (show_more_progress (Suc c + i)), Sleep 1000]) [0..<k]) @
             [Print (show_more_progress (Suc c + k))]\<rparr>)" for w'
    using Suc.IH[of "\<lambda>i. bs (Suc i)" "Suc c" w'] rest Suc.prems(2) by simp
  have shift: "map (\<lambda>i. [Print (show_more_progress (c + i)), Sleep 1000]) [0..<Suc k] =
      [Print (show_more_progress c), Sleep 1000] #
      map (\<lambda>i. [Print (show_more_progress (Suc c + i)), Sleep 1000]) [0..<k]"
    by (simp add: upt_conv_Cons map_Suc_upt[symmetric] del: upt_Suc)
  show ?case
    unfolding show_more_loop_click_ok[OF first] ih shift
    by (simp add: py_print_def sleep_def emit_def)
qed

lemma show_more_loop_diverges:
  fixes drv :: "('s, 'el) webdriver"
  assumes inv: "I b" and step: "\<forall>b. I b \<longrightarrow> (\<exists>b'. click drv button b = Inr b' \<and> I b')"
  shows "show_more_loop drv button clicks b w = None"
proof (rule ccontr)
  assume "show_more_loop drv button clicks b w \<noteq> None"
  then obtain y where y: "show_more_loop drv button clicks b w = Some y" by auto
  have "drv = drv \<and> button = button \<and> I b \<longrightarrow> False"
  proof (rule show_more_loop.raw_induct
      [where P = "\<lambda>drv' button' clicks b w y. drv' = drv \<and> button' = button \<and> I b \<longrightarrow> False",
        OF _ y])
    fix f :: "('s, 'el) webdriver \<Rightarrow> 'el \<Rightarrow> nat \<Rightarrow> 's \<Rightarrow> world \<Rightarrow> ((exn + nat \<times> 's) \<times> world) option"
    fix drv' button' clicks b w y
    assume ih: "\<And>drv' button' clicks b w y. f drv' button' clicks b w = Some y \<Longrightarrow>
        drv' = drv \<and> button' = button \<and> I b \<longrightarrow> False"
    assume body: "(case click drv' button' b of
        Inl x \<Rightarrow>
          if x = ElementNotInteractableException
          then Some (Inr (clicks, b), py_print (show_more_progress clicks) w)
          else Some (Inl x, py_print (show_more_progress clicks) w)
      | Inr b' \<Rightarrow>
          f drv' button' (Suc clicks) b'
            (sleep 1000 (py_print (show_more_progress clicks) w))) = Some y"
    show "drv' = drv \<and> button' = button \<and> I b \<longrightarrow> False"
    proof
      assume a: "drv' = drv \<and> button' = button \<and> I b"
      then obtain b' where b': "click drv button b = Inr b'" "I b'" using step by blast
      from body a b' have "f drv button (Suc clicks) b'
          (sleep 1000 (py_print (show_more_progress clicks) w)) = Some y" by simp
      from ih[OF this] b'(2) show False by simp
    qed
  qed
  with inv show False by simp
qed

lemma tag_matches_present:
  "tag_matches name cls present p \<Longrightarrow> a \<in> set present \<Longrightarrow>
     \<exists>v. map_of (tag_attrs p) a = Some v \<and> tag_get p a = Inr v"
  by (cases p) (auto simp: list_all_iff)

lemma map_exn_Inr:
  "\<forall>x \<in> set xs. \<exists>y. f x = Inr y \<Longrightarrow> map_exn f xs = Inr (map (\<lambda>x. projr (f x)) xs)"
  by (induction xs) auto

lemma hrefs_of_find_all:
  "map_exn (\<lambda>p. tag_get p a) (find_all name cls [a] doc) =
     Inr (map (\<lambda>p. projr (tag_get p a)) (find_all name cls [a] doc))"
  by (rule map_exn_Inr) (auto simp: find_all_def dest: tag_matches_present[where a = a])

lemma scroll_loop_diverges:
  fixes drv :: "('s, 'el) webdriver"
  assumes inv: "I b"
    and step: "\<forall>b. I b \<longrightarrow> (\<exists>button b1 b2.
        find_element drv (ByCssSelector tooler_class_scroll_button) b = Inr button
        \<and> execute_script drv ''arguments[0].scrollIntoView();'' button b = Inr b1
        \<and> click drv button b1 = Inr b2
        \<and> find_all ''button'' (Some tooler_class_scroll_button) []
             (html_parser e (page_source drv b2)) \<noteq> []
        \<and> I b2)"
  shows "scroll_loop e drv clicks product_urls b w = None"
proof (rule ccontr)
  assume "scroll_loop e drv clicks product_urls b w \<noteq> None"
  then obtain y where y: "scroll_loop e drv clicks product_urls b w = Some y" by auto
  have "e = e \<and> drv = drv \<and> I b \<longrightarrow> False"
  proof (rule scroll_loop.raw_induct
      [where P = "\<lambda>e' drv' clicks urls b w y. e' = e \<and> drv' = drv \<and> I b \<longrightarrow> False", OF _ y])
    fix f :: "env \<Rightarrow> ('s, 'el) webdriver \<Rightarrow> nat \<Rightarrow> string list \<Rightarrow> 's \<Rightarrow> world
        \<Rightarrow> ((exn + string list \<times> nat \<times> 's) \<times> world) option"
    fix e' drv' clicks product_urls b w y
    assume ih: "\<And>e' drv' clicks urls b w y. f e' drv' clicks urls b w = Some y \<Longrightarrow>
        e' = e \<and> drv' = drv \<and> I b \<longrightarrow> False"
    assume body: "(case find_element drv' (ByCssSelector tooler_class_scroll_button) b of
        Inl x \<Rightarrow> Some (Inl x, w)
      | Inr button \<Rightarrow>
          (case execute_script drv' ''arguments[0].scrollIntoView();'' button b of
             Inl x \<Rightarrow> Some (Inl x, w)
           | Inr b1 \<Rightarrow>
               (case click drv' button b1 of
                  Inl x \<Rightarrow> Some (Inl x, w)
                | Inr b2 \<Rightarrow>
                    (case map_exn (\<lambda>p. tag_get p ''href'')
                            (find_all ''a'' (Some tooler_class_product_link) [''href'']
                               (html_parser e' (page_source drv' b2))) of
                       Inl x \<Rightarrow> Some (Inl x, sleep 1000 w)
                     | Inr new_urls \<Rightarrow>
                         if find_all ''button'' (Some tooler_class_scroll_button) []
                              (html_parser e' (page_source drv' b2)) = []
                         then Some (Inr (product_urls @ new_urls, Suc clicks, b2),
                                    py_print (str_nat (Suc clicks)) (sleep 1000 w))
                         else f e' drv' (Suc clicks) (product_urls @ new_urls) b2
                                (py_print (str_nat (Suc clicks)) (sleep 1000 w)))))) = Some y"
    show "e' = e \<and> drv' = drv \<and> I b \<longrightarrow> False"
    proof
      assume a: "e' = e \<and> drv' = drv \<and> I b"
      then obtain button b1 b2 where s:
        "find_element drv (ByCssSelector tooler_class_scroll_button) b = Inr button"
        "execute_script drv ''arguments[0].scrollIntoView();'' button b = Inr b1"
        "click drv button b1 = Inr b2"
        "find_all ''button'' (Some tooler_class_scroll_button) []
             (html_parser e (page_source drv b2)) \<noteq> []"
        "I b2"
        using step by blast
      from a have eq: "e' = e" "drv' = drv" by simp_all
      from body have "f e drv (Suc clicks)
          (product_urls @ map (\<lambda>p. projr (tag_get p ''href''))
             (find_all ''a'' (Some tooler_class_product_link) [''href'']
                (html_parser e (page_source drv b2)))) b2
          (py_print (str_nat (Suc clicks)) (sleep 1000 w)) = Some y"
        by (simp only: eq s(1,2,3,4) hrefs_of_find_all sum.case if_False)
      from ih[OF this] s(5) show False by simp
    qed
  qed
  with inv show False by simp
qed

text \<open>
  Claim C4. Neither click loop has a bound on its iterations. In a browser in which
  every click on the "show more" button succeeds, the loop of \<^verbatim>\<open>process_gedore\<close>
  never returns; in a browser in which the button is always found, scrolled to and
  clicked, and whose page always passes the test at the end of the loop body, the
  loop of \<^verbatim>\<open>process_tooler\<close> never returns. \<open>I\<close> and \<open>J\<close> describe the browser
  states that the loops pass through.
\<close>

theorem click_loops_can_run_forever:
  fixes drv :: "('s, 'el) webdriver" and drv2 :: "('t, 'el2) webdriver"
  assumes "I b"
    and "\<forall>b. I b \<longrightarrow> (\<exists>b'. click drv button b = Inr b' \<and> I b')"
    and "J c"
    and "\<forall>c. J c \<longrightarrow> (\<exists>button b1 b2.
        find_element drv2 (ByCssSelector tooler_class_scroll_button) c = Inr button
        \<and> execute_script drv2 ''arguments[0].scrollIntoView();'' button c = Inr b1
        \<and> click drv2 button b1 = Inr b2
        \<and> find_all ''button'' (Some tooler_class_scroll_button) []
             (html_parser e (page_source drv2 b2)) \<noteq> []
        \<and> J b2)"
  shows "show_more_loop drv button clicks b w = None
    \<and> scroll_loop e drv2 clicks2 product_urls c w2 = None"
  using show_more_loop_diverges[OF assms(1,2)] scroll_loop_diverges[OF assms(3,4)]
  by simp

theorem click_loops_can_run_forever_witness:
  "(\<forall>b. \<exists>b'. click (ex_browser always_clickable ''MORE'') () b = Inr b')
   \<and> (\<forall>c. \<exists>button b1 b2.
        find_element (ex_browser always_clickable ''BUTTON'')
          (ByCssSelector tooler_class_scroll_button) c = Inr button
        \<and> execute_script (ex_browser always_clickable ''BUTTON'')
             ''arguments[0].scrollIntoView();'' button c = Inr b1
        \<and> click (ex_browser always_clickable ''BUTTON'') button b1 = Inr b2
        \<and> find_all ''button'' (Some tooler_class_scroll_button) []
             (html_parser ex_env (page_source (ex_browser always_clickable ''BUTTON'') b2)) \<noteq> [])
   \<and> show_more_loop (ex_browser always_clickable ''MORE'') () 0 0 ex_world = None
   \<and> scroll_loop ex_env (ex_browser always_clickable ''BUTTON'') 0 [] 0 ex_world = None"
proof -
  have h1: "\<forall>b. True \<longrightarrow> (\<exists>b'. click (ex_browser always_clickable ''MORE'') () b = Inr b' \<and> True)"
    by (simp add: ex_browser_def always_clickable_def)
  have page: "find_all ''button'' (Some tooler_class_scroll_button) []
      (html_parser ex_env (page_source (ex_browser always_clickable ''BUTTON'') b2)) \<noteq> []" for b2
    by (simp add: ex_browser_def ex_env_def ex_parse_def ex_tooler_button_doc_def find_all_def)
  have h2: "\<forall>c. True \<longrightarrow> (\<exists>button b1 b2.
        find_element (ex_browser always_clickable ''BUTTON'')
          (ByCssSelector tooler_class_scroll_button) c = Inr button
        \<and> execute_script (ex_browser always_clickable ''BUTTON'')
             ''arguments[0].scrollIntoView();'' button c = Inr b1
        \<and> click (ex_browser always_clickable ''BUTTON'') button b1 = Inr b2
        \<and> find_all ''button'' (Some tooler_class_scroll_button) []
             (html_parser ex_env (page_source (ex_browser always_clickable ''BUTTON'') b2)) \<noteq> []
        \<and> True)"
    using page by (simp add: ex_browser_def always_clickable_def)
  from click_loops_can_run_forever[of "\<lambda>b. True" 0 "ex_browser always_clickable ''MORE''" "()"
      "\<lambda>c. True" 0 "ex_browser always_clickable ''BUTTON''" ex_env 0 ex_world 0 "[]" ex_world,
      OF TrueI h1 TrueI h2]
  show ?thesis using h1 h2 by simp
qed

text \<open>
  Claim C3, as amended. In the "show more" traversal, after any number of successful
  clicks, an ElementNotInteractableException from the click ends the loop, and the
  run goes on with the page as the browser shows it then; any other exception from
  the click leaves \<^verbatim>\<open>process_gedore\<close> with that exception.
\<close>

theorem show_more_click_failure:
  fixes drv :: "('s, 'el) webdriver"
  assumes fetch: "requests_get e url = Inr r"
    and more: "find_all ''a'' (Some class_scroll_button) [] (lxml e (content r)) \<noteq> []"
    and start: "driver_get drv url = Inr b0"
      "wait_until_located drv (ByClassName class_scroll_button) b0 = Inr (bs 0)"
      "find_element drv (ByClassName class_scroll_button) (bs 0) = Inr button"
    and ok: "\<forall>i<k. click drv button (bs i) = Inr (bs (Suc i))"
    and fail: "click drv button (bs k) = Inl x"
  shows "traverse_listing e drv url w =
      Some (if x = ElementNotInteractableException
            then Inr (Single (html_parser e (page_source drv (bs k)))) else Inl x,
            w\<lparr>trace := trace w @ [HttpGet url] @
               concat (map (\<lambda>i. [Print (show_more_progress i), Sleep 1000]) [0..<k]) @
               [Print (show_more_progress k)]\<rparr>)
    \<and> (x \<noteq> ElementNotInteractableException \<longrightarrow>
        process_gedore e drv url img_dir w =
          Some (Inl x,
            w\<lparr>trace := trace w @ [HttpGet url] @
               concat (map (\<lambda>i. [Print (show_more_progress i), Sleep 1000]) [0..<k]) @
               [Print (show_more_progress k)]\<rparr>))"
proof -
  have loop: "show_more_loop drv button 0 (bs 0) w' =
    Some (if x = ElementNotInteractableException then Inr (k, bs k) else Inl x,
          w'\<lparr>trace := trace w' @
             concat (map (\<lambda>i. [Print (show_more_progress i), Sleep 1000]) [0..<k]) @
             [Print (show_more_progress k)]\<rparr>)" for w'
    using show_more_loop_clicks_then_raises[OF ok fail, of 0 w'] by simp
  have t: "traverse_listing e drv url w =
      Some (if x = ElementNotInteractableException
            then Inr (Single (html_parser e (page_source drv (bs k)))) else Inl x,
            w\<lparr>trace := trace w @ [HttpGet url] @
               concat (map (\<lambda>i. [Print (show_more_progress i), Sleep 1000]) [0..<k]) @
               [Print (show_more_progress k)]\<rparr>)"
    using fetch more start
    by (simp add: traverse_listing_def http_get_def emit_def loop)
  show ?thesis
    using t by (simp add: process_gedore_def)
qed

theorem show_more_click_failure_witness:
  "requests_get ex_env ''http://shop.test/more'' = Inr \<lparr>status_code = 200, content = ''MORE''\<rparr>
   \<and> find_all ''a'' (Some class_scroll_button) [] (lxml ex_env ''MORE'') \<noteq> []
   \<and> click (ex_browser (clickable_until 2 ElementNotInteractableException) ''MORE'') () 0 = Inr 1
   \<and> click (ex_browser (clickable_until 2 ElementNotInteractableException) ''MORE'') () 1 = Inr 2
   \<and> click (ex_browser (clickable_until 2 ElementNotInteractableException) ''MORE'') () 2
         = Inl ElementNotInteractableException
   \<and> traverse_listing ex_env (ex_browser (clickable_until 2 ElementNotInteractableException) ''MORE'')
         ''http://shop.test/more'' ex_world =
       Some (Inr (Single ex_more_doc),
             ex_world\<lparr>trace := [HttpGet ''http://shop.test/more'',
                Print (show_more_progress 0), Sleep 1000,
                Print (show_more_progress 1), Sleep 1000,
                Print (show_more_progress 2)]\<rparr>)"
proof -
  let ?drv = "ex_browser (clickable_until 2 ElementNotInteractableException) ''MORE''"
  have h1: "requests_get ex_env ''http://shop.test/more'' = Inr \<lparr>status_code = 200, content = ''MORE''\<rparr>"
    by (simp add: ex_env_def ex_requests_get_def)
  have h2: "find_all ''a'' (Some class_scroll_button) []
      (lxml ex_env (content \<lparr>status_code = 200, content = ''MORE''\<rparr>)) \<noteq> []"
    by (simp add: ex_env_def ex_parse_def ex_more_doc_def find_all_def)
  have h3: "driver_get ?drv ''http://shop.test/more'' = Inr 0"
    "wait_until_located ?drv (ByClassName class_scroll_button) 0 = Inr ((\<lambda>i. i) 0)"
    "find_element ?drv (ByClassName class_scroll_button) ((\<lambda>i. i) 0) = Inr ()"
    by (simp_all add: ex_browser_def)
  have h4: "\<forall>i<2. click ?drv () ((\<lambda>i. i) i) = Inr ((\<lambda>i. i) (Suc i))"
    by (simp add: ex_browser_def clickable_until_def)
  have h5: "click ?drv () ((\<lambda>i. i) 2) = Inl ElementNotInteractableException"
    by (simp add: ex_browser_def clickable_until_def)
  have src: "html_parser ex_env (page_source ?drv 2) = ex_more_doc"
    by (simp add: ex_browser_def ex_env_def ex_parse_def)
  have tr: "trace ex_world = []" by (simp add: ex_world_def)
  have upt: "[0..<2] = [0, Suc 0]" by (simp add: upt_conv_Cons)
  from show_more_click_failure[OF h1 h2 h3 h4 h5, of ex_world None]
  have "traverse_listing ex_env ?drv ''http://shop.test/more'' ex_world =
       Some (Inr (Single ex_more_doc),
             ex_world\<lparr>trace := [HttpGet ''http://shop.test/more'',
                Print (show_more_progress 0), Sleep 1000,
                Print (show_more_progress 1), Sleep 1000,
                Print (show_more_progress 2)]\<rparr>)"
    by (simp add: src tr upt)
  moreover have "click ?drv () 0 = Inr 1" "click ?drv () 1 = Inr 2"
    by (simp_all add: ex_browser_def clickable_until_def)
  ultimately show ?thesis
    using h1 h2 h5 by simp
qed

text \<open>
  The claim as it was stated, for any failure of the interaction, fails: a click that
  raises ElementClickInterceptedException is not caught, and the run ends with it.
\<close>

theorem other_click_failure_propagates:
  "click (ex_browser (clickable_until 1 ElementClickInterceptedException) ''MORE'') () 1
     = Inl ElementClickInterceptedException
   \<and> map_option fst (traverse_listing ex_env
        (ex_browser (clickable_until 1 ElementClickInterceptedException) ''MORE'')
        ''http://shop.test/more'' ex_world) = Some (Inl ElementClickInterceptedException)
   \<and> map_option fst (process_gedore ex_env
        (ex_browser (clickable_until 1 ElementClickInterceptedException) ''MORE'')
        ''http://shop.test/more'' None ex_world) = Some (Inl ElementClickInterceptedException)"
  by code_simp

subsection \<open>Product pages with missing markup\<close>

lemma extract_fields_missing:
  assumes "find_bs ''div'' (Some class_ean) [] bs = None
    \<or> find_bs ''div'' (Some class_product_description) [] bs = None
    \<or> find_bs ''div'' (Some class_product_details) [] bs = None"
  shows "extract_fields e img_dir bs img_urls dl w = (Inl AttributeError, w)"
  using assms
  by (auto simp: extract_fields_def process_details_def Let_def split: option.splits)

lemma extract_fields_Inr:
  assumes "fst (extract_fields e img_dir bs img_urls dl w) = Inr cur"
  shows "find_bs ''div'' (Some class_ean) [] bs \<noteq> None
    \<and> find_bs ''div'' (Some class_product_description) [] bs \<noteq> None
    \<and> find_bs ''div'' (Some class_product_details) [] bs \<noteq> None
    \<and> (find_bs ''span'' (Some class_uvp) [] bs = None \<longrightarrow> pp_uvp cur = ''NA'')"
proof -
  have present: "find_bs ''div'' (Some class_ean) [] bs \<noteq> None
    \<and> find_bs ''div'' (Some class_product_description) [] bs \<noteq> None
    \<and> find_bs ''div'' (Some class_product_details) [] bs \<noteq> None"
  proof (rule ccontr)
    assume "\<not> ?thesis"
    then have "find_bs ''div'' (Some class_ean) [] bs = None
      \<or> find_bs ''div'' (Some class_product_description) [] bs = None
      \<or> find_bs ''div'' (Some class_product_details) [] bs = None" by blast
    from extract_fields_missing[OF this, of e img_dir img_urls dl w] assms show False by simp
  qed
  have "pp_uvp cur = ''NA''" if "find_bs ''span'' (Some class_uvp) [] bs = None"
    using assms that
    by (auto simp: extract_fields_def Let_def split: option.splits sum.splits prod.splits)
  with present show ?thesis by blast
qed

lemma process_prod_page_Inr:
  assumes "process_prod_page e domain img_dir u w = (Inr cur, w')"
  shows "\<exists>r. requests_get e u = Inr r
    \<and> find_bs ''div'' (Some class_ean) [] (lxml e (content r)) \<noteq> None
    \<and> find_bs ''div'' (Some class_product_description) [] (lxml e (content r)) \<noteq> None
    \<and> find_bs ''div'' (Some class_product_details) [] (lxml e (content r)) \<noteq> None"
proof -
  from assms obtain r where r: "requests_get e u = Inr r"
    by (cases "requests_get e u") (auto simp: process_prod_page_def http_get_def)
  from assms r obtain img_urls dl w3 where
    "extract_fields e img_dir (lxml e (content r)) img_urls dl w3 = (Inr cur, w')"
    by (auto simp: process_prod_page_def http_get_def Let_def split: sum.splits prod.splits if_splits)
  then have "fst (extract_fields e img_dir (lxml e (content r)) img_urls dl w3) = Inr cur"
    by simp
  from extract_fields_Inr[OF this] r show ?thesis by blast
qed

lemma process_products_Inr:
  assumes "process_products e domain img_dir urls acc w = (Inr c, w')" and "u \<in> set urls"
  shows "\<exists>r. requests_get e u = Inr r
    \<and> find_bs ''div'' (Some class_ean) [] (lxml e (content r)) \<noteq> None
    \<and> find_bs ''div'' (Some class_product_description) [] (lxml e (content r)) \<noteq> None
    \<and> find_bs ''div'' (Some class_product_details) [] (lxml e (content r)) \<noteq> None"
  using assms
proof (induction urls arbitrary: acc w)
  case Nil
  then show ?case by simp
next
  case (Cons v urls)
  from Cons.prems(1) obtain cur w1 where
    page: "process_prod_page e domain img_dir v w = (Inr cur, w1)"
    by (cases "process_prod_page e domain img_dir v w"; cases "fst (process_prod_page e domain img_dir v w)")
       auto
  show ?case
  proof (cases "u = v")
    case True
    with process_prod_page_Inr[OF page] show ?thesis by simp
  next
    case False
    with Cons.prems(2) have "u \<in> set urls" by simp
    moreover from Cons.prems(1) page obtain acc' where
      "process_products e domain img_dir urls acc' w1 = (Inr c, w')" by simp
    ultimately show ?thesis by (rule Cons.IH[rotated])
  qed
qed

lemma process_products_halts:
  assumes "u \<in> set urls" and "requests_get e u = Inr r"
    and "find_bs ''div'' (Some class_ean) [] (lxml e (content r)) = None
      \<or> find_bs ''div'' (Some class_product_description) [] (lxml e (content r)) = None
      \<or> find_bs ''div'' (Some class_product_details) [] (lxml e (content r)) = None"
  shows "\<exists>x w'. process_products e domain img_dir urls acc w = (Inl x, w')"
proof (cases "process_products e domain img_dir urls acc w")
  case (Pair res w')
  show ?thesis
  proof (cases res)
    case (Inl x)
    with Pair show ?thesis by simp
  next
    case (Inr c)
    with Pair process_products_Inr[OF _ assms(1), of e domain img_dir acc w c w'] assms(2,3)
    show ?thesis by auto
  qed
qed

lemma process_products_append:
  "process_products e domain img_dir (pre @ post) acc w =
     (case process_products e domain img_dir pre acc w of
        (Inl x, w1) \<Rightarrow> (Inl x, w1)
      | (Inr c, w1) \<Rightarrow> process_products e domain img_dir post c w1)"
proof (induction pre arbitrary: acc w)
  case Nil
  then show ?case by simp
next
  case (Cons u pre)
  show ?case
  proof (cases "process_prod_page e domain img_dir u w")
    case (Pair res w1)
    then show ?thesis
      by (cases res) (simp_all add: Cons.IH)
  qed
qed

lemma process_prod_page_missing:
  assumes page: "requests_get e u = Inr r"
    and imgs: "image_urls domain (lxml e (content r)) = Inr img_urls"
    and downloads: "(if truthy img_dir
        then download_images e u (os_path_join (the img_dir) img_final_dir) img_urls []
               (sleep 10 (emit (HttpGet u) w))
        else (Inr [], sleep 10 (emit (HttpGet u) w))) = (Inr dl, w3)"
    and missing: "find_bs ''div'' (Some class_ean) [] (lxml e (content r)) = None
      \<or> find_bs ''div'' (Some class_product_description) [] (lxml e (content r)) = None
      \<or> find_bs ''div'' (Some class_product_details) [] (lxml e (content r)) = None"
  shows "process_prod_page e domain img_dir u w = (Inl AttributeError, w3)"
proof -
  have "process_prod_page e domain img_dir u w =
      extract_fields e img_dir (lxml e (content r)) img_urls dl w3"
    unfolding process_prod_page_def http_get_def Let_def
    by (simp only: page imgs downloads prod.case sum.case)
  then show ?thesis
    by (simp only: extract_fields_missing[OF missing])
qed

lemma extract_fields_description:
  assumes "fst (extract_fields e img_dir bs img_urls dl w) = Inr cur"
    and "find_bs ''div'' (Some class_product_description) [] bs = Some t"
  shows "pp_description cur =
    (case find_bs ''ul'' None [] t of None \<Rightarrow> ''None'' | Some ul \<Rightarrow> tag_str e ul)"
  using assms
  by (auto simp: extract_fields_def Let_def split: option.splits sum.splits prod.splits)

text \<open>
  Claim C6, as amended. Let a run reach a product page \<open>u\<close> of its listing: the
  listing was traversed, the pages before \<open>u\<close> were processed, and the images of
  \<open>u\<close> were handled. When the page has no EAN element, no description element or no
  details element, reading its fields raises AttributeError, the page raises it, and
  the run ends with AttributeError in the state reached there: no later page is
  requested. Two absent pieces of markup do not raise and are replaced by a
  placeholder: without a price element the price of the page is \<^verbatim>\<open>"NA"\<close>, and for a
  description element without a list the description is the text \<^verbatim>\<open>"None"\<close>.
\<close>

theorem missing_field_propagates:
  fixes drv :: "('s, 'el) webdriver"
  assumes listing: "traverse_listing e drv url w = Some (Inr bs, w1)"
    and links: "extract_listing bs = Inr l"
    and position: "product_urls_list l = pre @ u # post"
    and earlier: "process_products e (url_domain url) img_dir pre
        \<lparr>ean = [], uvp = [], description = [], details = [],
         product_img_urls = [], downloaded_imgs = []\<rparr>
        (py_print ([CHR 0x0A] @ ''Extracting info from product pages ...'') w1) = (Inr c, w2)"
    and page: "requests_get e u = Inr r"
    and imgs: "image_urls (url_domain url) (lxml e (content r)) = Inr img_urls"
    and downloads: "(if truthy img_dir
        then download_images e u (os_path_join (the img_dir) img_final_dir) img_urls []
               (sleep 10 (emit (HttpGet u) w2))
        else (Inr [], sleep 10 (emit (HttpGet u) w2))) = (Inr dl, w3)"
    and missing: "find_bs ''div'' (Some class_ean) [] (lxml e (content r)) = None
      \<or> find_bs ''div'' (Some class_product_description) [] (lxml e (content r)) = None
      \<or> find_bs ''div'' (Some class_product_details) [] (lxml e (content r)) = None"
  shows "extract_fields e img_dir (lxml e (content r)) img_urls dl w3 = (Inl AttributeError, w3)
    \<and> process_prod_page e (url_domain url) img_dir u w2 = (Inl AttributeError, w3)
    \<and> process_gedore e drv url img_dir w = Some (Inl AttributeError, w3)
    \<and> (\<forall>doc urls names v cur.
          find_bs ''span'' (Some class_uvp) [] doc = None
          \<and> fst (extract_fields e img_dir doc urls names v) = Inr cur
        \<longrightarrow> pp_uvp cur = ''NA'')
    \<and> (\<forall>doc t urls names v cur.
          find_bs ''div'' (Some class_product_description) [] doc = Some t
          \<and> find_bs ''ul'' None [] t = None
          \<and> fst (extract_fields e img_dir doc urls names v) = Inr cur
        \<longrightarrow> pp_description cur = ''None'')"
proof -
  let ?cols = "\<lparr>ean = [], uvp = [], description = [], details = [],
         product_img_urls = [], downloaded_imgs = []\<rparr>"
  let ?v = "py_print ([CHR 0x0A] @ ''Extracting info from product pages ...'') w1"
  have a: "extract_fields e img_dir (lxml e (content r)) img_urls dl w3 = (Inl AttributeError, w3)"
    by (rule extract_fields_missing[OF missing])
  have b: "process_prod_page e (url_domain url) img_dir u w2 = (Inl AttributeError, w3)"
    by (rule process_prod_page_missing[OF page imgs downloads missing])
  have "process_products e (url_domain url) img_dir (pre @ u # post) ?cols ?v
      = process_products e (url_domain url) img_dir (u # post) c w2"
    by (simp only: process_products_append earlier prod.case sum.case)
  also have "\<dots> = (Inl AttributeError, w3)"
    by (simp only: process_products.simps b prod.case sum.case)
  finally have "process_products e (url_domain url) img_dir (product_urls_list l) ?cols ?v
      = (Inl AttributeError, w3)"
    by (simp only: position)
  then have g: "process_gedore e drv url img_dir w = Some (Inl AttributeError, w3)"
    unfolding process_gedore_def
    by (simp only: listing links option.case prod.case sum.case)
  have p: "pp_uvp cur = ''NA''"
    if "find_bs ''span'' (Some class_uvp) [] doc = None"
      "fst (extract_fields e img_dir doc urls names v) = Inr cur" for doc urls names v cur
    using extract_fields_Inr[OF that(2)] that(1) by blast
  have d: "pp_description cur = ''None''"
    if "find_bs ''div'' (Some class_product_description) [] doc = Some t"
      "find_bs ''ul'' None [] t = None"
      "fst (extract_fields e img_dir doc urls names v) = Inr cur" for doc t urls names v cur
    using extract_fields_description[OF that(3) that(1)] that(2) by simp
  from a b g p d show ?thesis by blast
qed

theorem missing_field_propagates_witness:
  "traverse_listing ex_env (ex_browser always_clickable ''LIST3'') ''http://shop.test/list3''
       ex_world =
     Some (Inr (Single ex_listing_doc3),
           snd (the (traverse_listing ex_env (ex_browser always_clickable ''LIST3'')
                       ''http://shop.test/list3'' ex_world)))
   \<and> extract_listing (Single ex_listing_doc3) =
       Inr \<lparr>article_name = [], article_number = [], dkm_nr = [],
            product_urls_list = [''http://shop.test/p1'', ''http://shop.test/p3'',
                                 ''http://shop.test/p2'']\<rparr>
   \<and> fst (process_products ex_env (url_domain ''http://shop.test/list3'') (Some ''data/gedore'')
            [''http://shop.test/p1'']
            \<lparr>ean = [], uvp = [], description = [], details = [],
             product_img_urls = [], downloaded_imgs = []\<rparr>
            (py_print ([CHR 0x0A] @ ''Extracting info from product pages ...'')
               (snd (the (traverse_listing ex_env (ex_browser always_clickable ''LIST3'')
                            ''http://shop.test/list3'' ex_world))))) =
       Inr \<lparr>ean = [''4010886'', ''12,50''], uvp = [],
            description = [''A wrench''],
            details = [''data/gedore/csv/4010886.csv''],
            product_img_urls = [''http://shop.test/img/a.png http://shop.test/img/b.png''],
            downloaded_imgs = [''data/gedore/img/a.png'']\<rparr>
   \<and> requests_get ex_env ''http://shop.test/p3'' = Inr \<lparr>status_code = 200, content = ''P3''\<rparr>
   \<and> image_urls (url_domain ''http://shop.test/list3'') (lxml ex_env ''P3'') = Inr []
   \<and> find_bs ''div'' (Some class_ean) [] (lxml ex_env ''P3'') = None
   \<and> map_option fst (process_gedore ex_env (ex_browser always_clickable ''LIST3'')
         ''http://shop.test/list3'' (Some ''data/gedore'') ex_world) = Some (Inl AttributeError)
   \<and> map_option (\<lambda>res. trace (snd res))
         (process_gedore ex_env (ex_browser always_clickable ''LIST3'')
            ''http://shop.test/list3'' (Some ''data/gedore'') ex_world) =
       Some [HttpGet ''http://shop.test/list3'',
             Print ([CHR 0x0A] @ ''Extracting info from product pages ...''),
             HttpGet ''http://shop.test/p1'', Sleep 10,
             HttpGet ''http://shop.test/img/a.png'', Sleep 10,
             HttpGet ''http://shop.test/img/b.png'', Sleep 10,
             Print (download_failed ''http://shop.test/img/b.png''),
             Print ''http://shop.test/p1'',
             HttpGet ''http://shop.test/p3'', Sleep 10]
   \<and> find_bs ''span'' (Some class_uvp) [] ex_product_doc2 = None
   \<and> fst (extract_fields ex_env (Some ''data/gedore'') ex_product_doc2 [] [] ex_world) =
       Inr \<lparr>pp_ean = ''4010887'', pp_uvp = ''NA'', pp_description = ''A socket'',
            pp_details = ''data/gedore/csv/4010887.csv'',
            pp_img_urls = [], pp_downloaded_images = []\<rparr>
   \<and> find_bs ''div'' (Some class_product_description) [] ex_product_doc4 =
       Some (Tag ''div'' [''description''] [] [NavigableString ''A plain text''])
   \<and> find_bs ''ul'' None [] (Tag ''div'' [''description''] [] [NavigableString ''A plain text''])
       = None
   \<and> fst (extract_fields ex_env (Some ''data/gedore'') ex_product_doc4 [] [] ex_world) =
       Inr \<lparr>pp_ean = ''4010888'', pp_uvp = ''3,20'', pp_description = ''None'',
            pp_details = ''data/gedore/csv/4010888.csv'',
            pp_img_urls = [], pp_downloaded_images = []\<rparr>"
proof -
  let ?drv = "ex_browser always_clickable ''LIST3''"
  let ?url = "''http://shop.test/list3''"
  let ?dir = "Some ''data/gedore''"
  let ?t = "traverse_listing ex_env ?drv ?url ex_world"
  let ?w1 = "snd (the ?t)"
  let ?l = "\<lparr>article_name = [], article_number = [], dkm_nr = [],
            product_urls_list = [''http://shop.test/p1'', ''http://shop.test/p3'',
                                 ''http://shop.test/p2'']\<rparr>"
  let ?cols = "\<lparr>ean = [], uvp = [], description = [], details = [],
             product_img_urls = [], downloaded_imgs = []\<rparr>"
  let ?c = "\<lparr>ean = [''4010886'', ''12,50''], uvp = [],
            description = [''A wrench''],
            details = [''data/gedore/csv/4010886.csv''],
            product_img_urls = [''http://shop.test/img/a.png http://shop.test/img/b.png''],
            downloaded_imgs = [''data/gedore/img/a.png'']\<rparr>"
  let ?pp = "process_products ex_env (url_domain ?url) ?dir [''http://shop.test/p1''] ?cols
      (py_print ([CHR 0x0A] @ ''Extracting info from product pages ...'') ?w1)"
  let ?w2 = "snd ?pp"
  let ?w3 = "sleep 10 (emit (HttpGet ''http://shop.test/p3'') ?w2)"
  let ?r = "\<lparr>status_code = 200, content = ''P3''\<rparr>"
  let ?cur2 = "\<lparr>pp_ean = ''4010887'', pp_uvp = ''NA'', pp_description = ''A socket'',
            pp_details = ''data/gedore/csv/4010887.csv'',
            pp_img_urls = [], pp_downloaded_images = []\<rparr>"
  let ?cur4 = "\<lparr>pp_ean = ''4010888'', pp_uvp = ''3,20'', pp_description = ''None'',
            pp_details = ''data/gedore/csv/4010888.csv'',
            pp_img_urls = [], pp_downloaded_images = []\<rparr>"
  let ?div = "Tag ''div'' [''description''] [] [NavigableString ''A plain text'']"
  have t0: "map_option fst ?t = Some (Inr (Single ex_listing_doc3))"
    by code_simp
  then have h1: "?t = Some (Inr (Single ex_listing_doc3), ?w1)"
    by (cases ?t) auto
  have h2: "extract_listing (Single ex_listing_doc3) = Inr ?l"
    by code_simp
  have h3: "product_urls_list ?l = [''http://shop.test/p1''] @ ''http://shop.test/p3'' #
      [''http://shop.test/p2'']"
    by simp
  have c0: "fst ?pp = Inr ?c"
    by code_simp
  then have h4: "?pp = (Inr ?c, ?w2)"
    by (cases ?pp) simp
  have h5: "requests_get ex_env ''http://shop.test/p3'' = Inr ?r"
    by (simp add: ex_env_def ex_requests_get_def)
  have d0: "content ?r = ''P3''" by simp
  have h6: "image_urls (url_domain ?url) (lxml ex_env ''P3'') = Inr []"
    by code_simp
  have h7: "(if truthy ?dir
        then download_images ex_env ''http://shop.test/p3''
               (os_path_join (the ?dir) img_final_dir) [] []
               (sleep 10 (emit (HttpGet ''http://shop.test/p3'') ?w2))
        else (Inr [], sleep 10 (emit (HttpGet ''http://shop.test/p3'') ?w2))) = (Inr [], ?w3)"
    by simp
  have h8: "find_bs ''div'' (Some class_ean) [] (lxml ex_env ''P3'') = None"
    by code_simp
  then have h8': "find_bs ''div'' (Some class_ean) [] (lxml ex_env ''P3'') = None
      \<or> find_bs ''div'' (Some class_product_description) [] (lxml ex_env ''P3'') = None
      \<or> find_bs ''div'' (Some class_product_details) [] (lxml ex_env ''P3'') = None"
    by simp
  have p1: "find_bs ''span'' (Some class_uvp) [] ex_product_doc2 = None"
    by code_simp
  have p2: "fst (extract_fields ex_env ?dir ex_product_doc2 [] [] ex_world) = Inr ?cur2"
    by code_simp
  have q1: "find_bs ''div'' (Some class_product_description) [] ex_product_doc4 = Some ?div"
    by code_simp
  have q2: "find_bs ''ul'' None [] ?div = None"
    by code_simp
  have q3: "fst (extract_fields ex_env ?dir ex_product_doc4 [] [] ex_world) = Inr ?cur4"
    by code_simp
  note t = missing_field_propagates[where e = ex_env and r = ?r and img_dir = ?dir,
      unfolded d0, OF h1 h2 h3 h4 h5 h6 h7 h8']
  from t have g: "process_gedore ex_env ?drv ?url ?dir ex_world = Some (Inl AttributeError, ?w3)"
    by blast
  then have g1: "map_option fst (process_gedore ex_env ?drv ?url ?dir ex_world)
      = Some (Inl AttributeError)"
    by simp
  have tr: "trace ?w3 =
       [HttpGet ''http://shop.test/list3'',
        Print ([CHR 0x0A] @ ''Extracting info from product pages ...''),
        HttpGet ''http://shop.test/p1'', Sleep 10,
        HttpGet ''http://shop.test/img/a.png'', Sleep 10,
        HttpGet ''http://shop.test/img/b.png'', Sleep 10,
        Print (download_failed ''http://shop.test/img/b.png''),
        Print ''http://shop.test/p1'',
        HttpGet ''http://shop.test/p3'', Sleep 10]"
    by code_simp
  from g tr have g2: "map_option (\<lambda>res. trace (snd res))
         (process_gedore ex_env ?drv ?url ?dir ex_world) =
       Some [HttpGet ''http://shop.test/list3'',
             Print ([CHR 0x0A] @ ''Extracting info from product pages ...''),
             HttpGet ''http://shop.test/p1'', Sleep 10,
             HttpGet ''http://shop.test/img/a.png'', Sleep 10,
             HttpGet ''http://shop.test/img/b.png'', Sleep 10,
             Print (download_failed ''http://shop.test/img/b.png''),
             Print ''http://shop.test/p1'',
             HttpGet ''http://shop.test/p3'', Sleep 10]"
    by simp
  from t p1 p2 have n1: "pp_uvp ?cur2 = ''NA''" by blast
  from t q1 q2 q3 have n2: "pp_description ?cur4 = ''None''" by blast
  from h1 h2 c0 h5 h6 h8 g1 g2 p1 p2 q1 q2 q3 show ?thesis by blast
qed

text \<open>
  The claim as it was stated, with the price among the fields whose absence halts the
  run and with no placeholder values, fails: the second product page of the shop has
  no price element and is read without an exception, with the price \<^verbatim>\<open>"NA"\<close>; the
  fourth has a description without a list and is read with the description
  \<^verbatim>\<open>"None"\<close>; and the loop over the two pages collects both values.
\<close>

theorem placeholders_are_substituted:
  "find_bs ''span'' (Some class_uvp) [] (lxml ex_env ''P2'') = None
   \<and> requests_get ex_env ''http://shop.test/p2'' = Inr \<lparr>status_code = 200, content = ''P2''\<rparr>
   \<and> fst (process_prod_page ex_env ''http://shop.test'' None ''http://shop.test/p2'' ex_world) =
       Inr \<lparr>pp_ean = ''4010887'', pp_uvp = ''NA'', pp_description = ''A socket'',
            pp_details = ''group|info|value'' @ [CHR 0x0A] @ ''Technical data|Length|10 mm'',
            pp_img_urls = [''http://shop.test/img/b.png''], pp_downloaded_images = []\<rparr>
   \<and> map_option (\<lambda>t. find_bs ''ul'' None [] t)
         (find_bs ''div'' (Some class_product_description) [] (lxml ex_env ''P4'')) = Some None
   \<and> requests_get ex_env ''http://shop.test/p4'' = Inr \<lparr>status_code = 200, content = ''P4''\<rparr>
   \<and> fst (process_prod_page ex_env ''http://shop.test'' None ''http://shop.test/p4'' ex_world) =
       Inr \<lparr>pp_ean = ''4010888'', pp_uvp = ''3,20'', pp_description = ''None'',
            pp_details = ''group|info|value'' @ [CHR 0x0A] @ ''Technical data|Length|10 mm'',
            pp_img_urls = [], pp_downloaded_images = []\<rparr>
   \<and> fst (process_products ex_env ''http://shop.test'' None
            [''http://shop.test/p2'', ''http://shop.test/p4'']
            \<lparr>ean = [], uvp = [], description = [], details = [],
             product_img_urls = [], downloaded_imgs = []\<rparr> ex_world) =
       Inr \<lparr>ean = [''4010887'', ''NA'', ''4010888'', ''3,20''], uvp = [],
            description = [''A socket'', ''None''],
            details = [''group|info|value'' @ [CHR 0x0A] @ ''Technical data|Length|10 mm'',
                       ''group|info|value'' @ [CHR 0x0A] @ ''Technical data|Length|10 mm''],
            product_img_urls = [''http://shop.test/img/b.png'', []],
            downloaded_imgs = [[], []]\<rparr>"
  by code_simp

subsection \<open>The numbered pages and their listings\<close>

lemma fetch_pages_ok:
  assumes "\<forall>p \<in> set pages. requests_get e (url_page_format (hd (str_split ''?'' url)) p pagesize) = Inr (page p)"
  shows "fetch_pages e url pagesize pages bs w =
    (Inr (bs @ map (\<lambda>p. lxml e (content (page p))) pages),
     w\<lparr>trace := trace w @
        concat (map (\<lambda>p. [HttpGet (url_page_format (hd (str_split ''?'' url)) p pagesize), Sleep 10])
                  pages)\<rparr>)"
  using assms
proof (induction pages arbitrary: bs w)
  case Nil
  then show ?case by simp
next
  case (Cons p pages)
  then show ?case
    by (simp add: http_get_def sleep_def emit_def)
qed

lemma process_product_listing_total:
  "\<exists>l. process_product_listing bs = Inr l"
  by (simp add: process_product_listing_def hrefs_of_find_all)

lemma collect_listings_urls:
  "\<exists>l. collect_listings pages acc = Inr l
     \<and> product_urls_list l = product_urls_list acc @
         concat (map (\<lambda>bs. product_urls_list (projr (process_product_listing bs))) pages)"
proof (induction pages arbitrary: acc)
  case Nil
  then show ?case by simp
next
  case (Cons bs pages)
  obtain cur where cur: "process_product_listing bs = Inr cur"
    using process_product_listing_total by blast
  show ?case
    using Cons.IH[of "\<lparr>article_name = article_name acc @ article_name cur,
             article_number = article_number acc @ article_number cur,
             dkm_nr = dkm_nr acc @ dkm_nr cur,
             product_urls_list = product_urls_list acc @ product_urls_list cur\<rparr>"]
    by (simp add: cur)
qed

lemma find_bs_matches:
  assumes "find_bs name cls present doc = Some t"
  shows "tag_matches name cls present t"
proof -
  from assms have "t \<in> set (find_all name cls present doc)"
    by (auto simp: find_bs_def split: list.splits)
  then show ?thesis by (simp add: find_all_def)
qed

lemma tag_get_attr:
  assumes "tag_matches name cls present t" and "map_of (tag_attrs t) key = Some v"
  shows "tag_get t key = Inr v"
  using assms by (cases t) simp_all

lemma traverse_listing_overflow:
  fixes drv :: "('s, 'el) webdriver"
  assumes "requests_get e url = Inr r"
    and "find_all ''a'' (Some class_scroll_button) [] (lxml e (content r)) = []"
    and "find_bs ''li'' (Some class_nr_pages) [] (lxml e (content r)) \<noteq> None"
    and "read_pagesize (lxml e (content r)) = Inr pagesize"
    and "read_page_nr (lxml e (content r)) = Inr page_nr"
    and "max_len \<le> page_nr"
  shows "traverse_listing e drv url w =
      Some (Inl OverflowError,
            w\<lparr>trace := trace w @
               [HttpGet url, Print ''Creating bs objects for product listing ...'']\<rparr>)"
  using assms
  by (simp add: traverse_listing_def http_get_def emit_def py_print_def)

text \<open>
  Claim C7, as amended. When the listing has no "show more" button and shows its
  number of pages, the page size is read from the markup as the \<^verbatim>\<open>value\<close> of the
  button in the selected list item, and the page count \<open>page_nr\<close> as the number after
  \<^verbatim>\<open>" von "\<close> in the text of the result item. When \<open>page_nr\<close> is below \<open>2 ^ 63\<close>
  and every page is delivered (\<open>page p\<close> is the response for page \<open>p\<close>), the pages 1
  to \<open>page_nr\<close>, and no others, are requested in increasing order, each at the URL
  (up to its first question mark) followed by \<^verbatim>\<open>?page=\<close>, the page number,
  \<^verbatim>\<open>&pagesize=\<close> and the page size, as the trace shows, and the product links of
  the run are those of the pages, in page order. When \<open>page_nr\<close> is \<open>2 ^ 63\<close> or more,
  the run ends with OverflowError before any page is requested.
\<close>

theorem numbered_pages_are_fetched_in_order:
  fixes drv :: "('s, 'el) webdriver"
  assumes fetch: "requests_get e url = Inr r"
    and no_more: "find_all ''a'' (Some class_scroll_button) [] (lxml e (content r)) = []"
    and selected: "find_bs ''li'' (Some ''selected'') [] (lxml e (content r)) = Some li"
    and button: "find_bs ''button'' None [''value''] li = Some button"
    and val: "map_of (tag_attrs button) ''value'' = Some pagesize"
    and res: "find_bs ''li'' (Some class_nr_pages) [] (lxml e (content r)) = Some li'"
    and sp: "find_bs ''span'' None [] li' = Some sp"
    and parts: "str_split '' von '' (get_text sp) = a # b # rest"
    and count: "py_int b = Some page_nr"
  shows "read_pagesize (lxml e (content r)) = Inr pagesize
    \<and> read_page_nr (lxml e (content r)) = Inr page_nr
    \<and> (page_nr < max_len
        \<and> (\<forall>p \<in> set [1..page_nr].
              requests_get e (url_page_format (hd (str_split ''?'' url)) p pagesize) = Inr (page p))
       \<longrightarrow> traverse_listing e drv url w =
             Some (Inr (Pages (map (\<lambda>p. lxml e (content (page p))) [1..page_nr])),
                   w\<lparr>trace := trace w @
                      [HttpGet url, Print ''Creating bs objects for product listing ...''] @
                      concat (map (\<lambda>p. [HttpGet (url_page_format (hd (str_split ''?'' url)) p pagesize),
                                         Sleep 10]) [1..page_nr])\<rparr>)
           \<and> (\<exists>l. extract_listing (Pages (map (\<lambda>p. lxml e (content (page p))) [1..page_nr])) = Inr l
                \<and> product_urls_list l =
                    concat (map (\<lambda>p. product_urls_list
                                        (projr (process_product_listing (lxml e (content (page p))))))
                              [1..page_nr])))
    \<and> (max_len \<le> page_nr
       \<longrightarrow> traverse_listing e drv url w =
             Some (Inl OverflowError,
                   w\<lparr>trace := trace w @
                      [HttpGet url, Print ''Creating bs objects for product listing ...'']\<rparr>))"
proof -
  have size: "read_pagesize (lxml e (content r)) = Inr pagesize"
    using selected button tag_get_attr[OF find_bs_matches[OF button] val]
    by (simp add: read_pagesize_def)
  have nr: "read_page_nr (lxml e (content r)) = Inr page_nr"
    using res sp parts count by (simp add: read_page_nr_def)
  from res have numbered: "find_bs ''li'' (Some class_nr_pages) [] (lxml e (content r)) \<noteq> None"
    by simp
  have a: "traverse_listing e drv url w =
      Some (Inr (Pages (map (\<lambda>p. lxml e (content (page p))) [1..page_nr])),
            w\<lparr>trace := trace w @
               [HttpGet url, Print ''Creating bs objects for product listing ...''] @
               concat (map (\<lambda>p. [HttpGet (url_page_format (hd (str_split ''?'' url)) p pagesize),
                                  Sleep 10]) [1..page_nr])\<rparr>)"
    if small: "page_nr < max_len"
      and pages: "\<forall>p \<in> set [1..page_nr].
        requests_get e (url_page_format (hd (str_split ''?'' url)) p pagesize) = Inr (page p)"
    using fetch no_more numbered size nr small
    by (simp add: traverse_listing_def http_get_def emit_def py_print_def fetch_pages_ok[OF pages])
  have b: "\<exists>l. extract_listing (Pages (map (\<lambda>p. lxml e (content (page p))) [1..page_nr])) = Inr l
         \<and> product_urls_list l =
             concat (map (\<lambda>p. product_urls_list
                                 (projr (process_product_listing (lxml e (content (page p))))))
                       [1..page_nr])"
    using collect_listings_urls[of "map (\<lambda>p. lxml e (content (page p))) [1..page_nr]"
        "\<lparr>article_name = [], article_number = [], dkm_nr = [], product_urls_list = []\<rparr>"]
    by (simp add: extract_listing_def comp_def)
  have c: "traverse_listing e drv url w =
      Some (Inl OverflowError,
            w\<lparr>trace := trace w @
               [HttpGet url, Print ''Creating bs objects for product listing ...'']\<rparr>)"
    if "max_len \<le> page_nr"
    by (rule traverse_listing_overflow[OF fetch no_more numbered size nr that])
  from size nr a b c show ?thesis by blast
qed

theorem numbered_pages_are_fetched_in_order_witness:
  "requests_get ex_env ''http://shop.test/num?page=3'' = Inr \<lparr>status_code = 200, content = ''NUM''\<rparr>
   \<and> find_all ''a'' (Some class_scroll_button) [] (lxml ex_env ''NUM'') = []
   \<and> find_bs ''li'' (Some ''selected'') [] (lxml ex_env ''NUM'') =
       Some (Tag ''li'' [''selected''] []
               [Tag ''button'' [] [(''value'', ''24'')] [NavigableString ''24'']])
   \<and> find_bs ''button'' None [''value'']
         (Tag ''li'' [''selected''] [] [Tag ''button'' [] [(''value'', ''24'')] [NavigableString ''24'']]) =
       Some (Tag ''button'' [] [(''value'', ''24'')] [NavigableString ''24''])
   \<and> map_of (tag_attrs (Tag ''button'' [] [(''value'', ''24'')] [NavigableString ''24'']))
         ''value'' = Some ''24''
   \<and> find_bs ''li'' (Some class_nr_pages) [] (lxml ex_env ''NUM'') =
       Some (Tag ''li'' [''result-text''] [] [Tag ''span'' [] [] [NavigableString ''Seite 1 von 2'']])
   \<and> find_bs ''span'' None []
         (Tag ''li'' [''result-text''] [] [Tag ''span'' [] [] [NavigableString ''Seite 1 von 2'']]) =
       Some (Tag ''span'' [] [] [NavigableString ''Seite 1 von 2''])
   \<and> str_split '' von '' (get_text (Tag ''span'' [] [] [NavigableString ''Seite 1 von 2'']))
       = [''Seite 1'', ''2'']
   \<and> py_int ''2'' = Some 2
   \<and> (2 :: int) < max_len
   \<and> requests_get ex_env ''http://shop.test/num?page=1&pagesize=24''
       = Inr \<lparr>status_code = 200, content = ''LIST''\<rparr>
   \<and> requests_get ex_env ''http://shop.test/num?page=2&pagesize=24''
       = Inr \<lparr>status_code = 200, content = ''LIST2''\<rparr>
   \<and> read_pagesize (lxml ex_env ''NUM'') = Inr ''24''
   \<and> read_page_nr (lxml ex_env ''NUM'') = Inr 2
   \<and> traverse_listing ex_env (ex_browser always_clickable ''NUM'') ''http://shop.test/num?page=3''
         ex_world =
       Some (Inr (Pages [ex_listing_doc, ex_listing_doc2]),
             ex_world\<lparr>trace :=
               [HttpGet ''http://shop.test/num?page=3'',
                Print ''Creating bs objects for product listing ...'',
                HttpGet ''http://shop.test/num?page=1&pagesize=24'', Sleep 10,
                HttpGet ''http://shop.test/num?page=2&pagesize=24'', Sleep 10]\<rparr>)
   \<and> (\<exists>l. extract_listing (Pages [ex_listing_doc, ex_listing_doc2]) = Inr l
         \<and> product_urls_list l = [''http://shop.test/p1'', ''http://shop.test/p2''])"
proof -
  let ?url = "''http://shop.test/num?page=3''"
  let ?r = "\<lparr>status_code = 200, content = ''NUM''\<rparr>"
  let ?button = "Tag ''button'' [] [(''value'', ''24'')] [NavigableString ''24'']"
  let ?li = "Tag ''li'' [''selected''] [] [?button]"
  let ?sp = "Tag ''span'' [] [] [NavigableString ''Seite 1 von 2'']"
  let ?li' = "Tag ''li'' [''result-text''] [] [?sp]"
  let ?page = "\<lambda>p::int. if p = 1 then \<lparr>status_code = 200, content = ''LIST''\<rparr>
                        else \<lparr>status_code = 200, content = ''LIST2''\<rparr>"
  have h1: "requests_get ex_env ?url = Inr ?r"
    by (simp add: ex_env_def ex_requests_get_def)
  have h2: "find_all ''a'' (Some class_scroll_button) [] (lxml ex_env ''NUM'') = []"
    by code_simp
  have h3: "find_bs ''li'' (Some ''selected'') [] (lxml ex_env ''NUM'') = Some ?li"
    by code_simp
  have h4: "find_bs ''button'' None [''value''] ?li = Some ?button"
    by code_simp
  have h5: "map_of (tag_attrs ?button) ''value'' = Some ''24''"
    by simp
  have h6: "find_bs ''li'' (Some class_nr_pages) [] (lxml ex_env ''NUM'') = Some ?li'"
    by code_simp
  have h7: "find_bs ''span'' None [] ?li' = Some ?sp"
    by code_simp
  have h8: "str_split '' von '' (get_text ?sp) = [''Seite 1'', ''2'']"
    by code_simp
  have h9: "py_int ''2'' = Some 2"
    by code_simp
  have h10: "(2 :: int) < max_len"
    by (simp add: max_len_def)
  have upto: "[1..2::int] = [1, 2]"
    by code_simp
  have base: "hd (str_split ''?'' ?url) = ''http://shop.test/num''"
    by code_simp
  have u1: "url_page_format ''http://shop.test/num'' 1 ''24''
      = ''http://shop.test/num?page=1&pagesize=24''"
    by code_simp
  have u2: "url_page_format ''http://shop.test/num'' 2 ''24''
      = ''http://shop.test/num?page=2&pagesize=24''"
    by code_simp
  have g1: "requests_get ex_env ''http://shop.test/num?page=1&pagesize=24''
       = Inr \<lparr>status_code = 200, content = ''LIST''\<rparr>"
    by (simp add: ex_env_def ex_requests_get_def)
  have g2: "requests_get ex_env ''http://shop.test/num?page=2&pagesize=24''
       = Inr \<lparr>status_code = 200, content = ''LIST2''\<rparr>"
    by (simp add: ex_env_def ex_requests_get_def)
  have h11: "\<forall>p \<in> set [1..2].
      requests_get ex_env (url_page_format (hd (str_split ''?'' ?url)) p ''24'') = Inr (?page p)"
    unfolding upto base using g1 g2 by (simp add: u1 u2)
  have d0: "content ?r = ''NUM''" by simp
  have d1: "lxml ex_env ''LIST'' = ex_listing_doc" "lxml ex_env ''LIST2'' = ex_listing_doc2"
    by (simp_all add: ex_env_def ex_parse_def)
  have l1: "product_urls_list (projr (process_product_listing ex_listing_doc))
      = [''http://shop.test/p1'']"
    by code_simp
  have l2: "product_urls_list (projr (process_product_listing ex_listing_doc2))
      = [''http://shop.test/p2'']"
    by code_simp
  have tr: "trace ex_world = []" by (simp add: ex_world_def)
  note t = numbered_pages_are_fetched_in_order[where e = ex_env and url = ?url and r = ?r
      and li = ?li and button = ?button and pagesize = "''24''" and li' = ?li' and sp = ?sp
      and a = "''Seite 1''" and b = "''2''" and rest = "[]" and page_nr = 2 and page = ?page
      and drv = "ex_browser always_clickable ''NUM''" and w = ex_world,
      unfolded d0, OF h1 h2 h3 h4 h5 h6 h7 h8 h9]
  from t have r1: "read_pagesize (lxml ex_env ''NUM'') = Inr ''24''" by blast
  from t have r2: "read_page_nr (lxml ex_env ''NUM'') = Inr 2" by blast
  from t h10 h11 have t': "traverse_listing ex_env (ex_browser always_clickable ''NUM'') ?url ex_world =
       Some (Inr (Pages (map (\<lambda>p. lxml ex_env (content (?page p))) [1..2])),
             ex_world\<lparr>trace := trace ex_world @
                [HttpGet ?url, Print ''Creating bs objects for product listing ...''] @
                concat (map (\<lambda>p. [HttpGet (url_page_format (hd (str_split ''?'' ?url)) p ''24''),
                                   Sleep 10]) [1..2])\<rparr>)
     \<and> (\<exists>l. extract_listing (Pages (map (\<lambda>p. lxml ex_env (content (?page p))) [1..2])) = Inr l
          \<and> product_urls_list l =
              concat (map (\<lambda>p. product_urls_list
                                  (projr (process_product_listing (lxml ex_env (content (?page p))))))
                        [1..2]))"
    by blast
  have t'': "traverse_listing ex_env (ex_browser always_clickable ''NUM'') ?url ex_world =
       Some (Inr (Pages [ex_listing_doc, ex_listing_doc2]),
             ex_world\<lparr>trace :=
               [HttpGet ?url,
                Print ''Creating bs objects for product listing ...'',
                HttpGet ''http://shop.test/num?page=1&pagesize=24'', Sleep 10,
                HttpGet ''http://shop.test/num?page=2&pagesize=24'', Sleep 10]\<rparr>)
   \<and> (\<exists>l. extract_listing (Pages [ex_listing_doc, ex_listing_doc2]) = Inr l
         \<and> product_urls_list l = [''http://shop.test/p1'', ''http://shop.test/p2''])"
    using t' by (simp add: upto base u1 u2 d1 l1 l2 tr)
  from h1 h2 h3 h4 h5 h6 h7 h8 h9 h10 g1 g2 r1 r2 t'' show ?thesis by blast
qed

text \<open>
  The claim as it was stated, for every page count, fails: for a listing that
  announces \<open>2 ^ 63\<close> pages the run requests the listing, prints its message and
  raises OverflowError, and none of the pages is requested.
\<close>

theorem huge_page_count_raises:
  "requests_get ex_env ''http://shop.test/huge'' = Inr \<lparr>status_code = 200, content = ''HUGE''\<rparr>
   \<and> find_all ''a'' (Some class_scroll_button) [] (lxml ex_env ''HUGE'') = []
   \<and> read_pagesize (lxml ex_env ''HUGE'') = Inr ''24''
   \<and> read_page_nr (lxml ex_env ''HUGE'') = Inr 9223372036854775808
   \<and> traverse_listing ex_env (ex_browser always_clickable ''HUGE'') ''http://shop.test/huge''
         ex_world =
       Some (Inl OverflowError,
             ex_world\<lparr>trace :=
               [HttpGet ''http://shop.test/huge'',
                Print ''Creating bs objects for product listing ...'']\<rparr>)
   \<and> process_gedore ex_env (ex_browser always_clickable ''HUGE'') ''http://shop.test/huge''
         None ex_world =
       Some (Inl OverflowError,
             ex_world\<lparr>trace :=
               [HttpGet ''http://shop.test/huge'',
                Print ''Creating bs objects for product listing ...'']\<rparr>)"
proof -
  let ?r = "\<lparr>status_code = 200, content = ''HUGE''\<rparr>"
  have h1: "requests_get ex_env ''http://shop.test/huge'' = Inr ?r"
    by (simp add: ex_env_def ex_requests_get_def)
  have h2: "find_all ''a'' (Some class_scroll_button) [] (lxml ex_env ''HUGE'') = []"
    by code_simp
  have h3: "find_bs ''li'' (Some class_nr_pages) [] (lxml ex_env ''HUGE'') \<noteq> None"
    by code_simp
  have h4: "read_pagesize (lxml ex_env ''HUGE'') = Inr ''24''"
    by code_simp
  have n1: "find_bs ''li'' (Some class_nr_pages) [] (lxml ex_env ''HUGE'') =
      Some (Tag ''li'' [''result-text''] []
              [Tag ''span'' [] [] [NavigableString ''Seite 1 von 9223372036854775808'']])"
    by code_simp
  have n2: "find_bs ''span'' None []
        (Tag ''li'' [''result-text''] []
           [Tag ''span'' [] [] [NavigableString ''Seite 1 von 9223372036854775808'']]) =
      Some (Tag ''span'' [] [] [NavigableString ''Seite 1 von 9223372036854775808''])"
    by code_simp
  have n3: "str_split '' von ''
        (get_text (Tag ''span'' [] [] [NavigableString ''Seite 1 von 9223372036854775808''])) =
      [''Seite 1'', ''9223372036854775808'']"
    by code_simp
  have n4: "py_int ''9223372036854775808'' = Some 9223372036854775808"
    by (simp add: py_int_def is_int_space_def digit_val_def Let_def)
  have h5: "read_page_nr (lxml ex_env ''HUGE'') = Inr 9223372036854775808"
    by (simp add: read_page_nr_def n1 n2 n3 n4)
  have h6: "max_len \<le> 9223372036854775808"
    by (simp add: max_len_def)
  have d0: "content ?r = ''HUGE''" by simp
  have tr: "trace ex_world = []" by (simp add: ex_world_def)
  have t: "traverse_listing ex_env (ex_browser always_clickable ''HUGE'') ''http://shop.test/huge''
         ex_world =
       Some (Inl OverflowError,
             ex_world\<lparr>trace :=
               [HttpGet ''http://shop.test/huge'',
                Print ''Creating bs objects for product listing ...'']\<rparr>)"
    using traverse_listing_overflow[where e = ex_env and r = ?r and w = ex_world
        and drv = "ex_browser always_clickable ''HUGE''", unfolded d0, OF h1 h2 h3 h4 h5 h6]
    by (simp add: tr)
  then have g: "process_gedore ex_env (ex_browser always_clickable ''HUGE'')
         ''http://shop.test/huge'' None ex_world =
       Some (Inl OverflowError,
             ex_world\<lparr>trace :=
               [HttpGet ''http://shop.test/huge'',
                Print ''Creating bs objects for product listing ...'']\<rparr>)"
    by (simp add: process_gedore_def)
  from h1 h2 h4 h5 t g show ?thesis by blast
qed

subsection \<open>What a run returns does not depend on where it runs\<close>

lemma bind_world_Inr:
  assumes "(case m of (Inl x, w1) \<Rightarrow> (Inl x, w1) | (Inr v, w1) \<Rightarrow> k v w1) = (Inr r, w')"
  obtains v w1 where "m = (Inr v, w1)" and "k v w1 = (Inr r, w')"
  using assms by (cases m; cases "fst m") auto

lemma bind_exn_Inr:
  assumes "(case m of Inl x \<Rightarrow> (Inl x, w) | Inr v \<Rightarrow> k v) = (Inr r, w')"
  obtains v where "m = Inr v" and "k v = (Inr r, w')"
  using assms by (cases m) auto

lemma save_img_from_url_value:
  assumes "save_img_from_url e url outdir w = (Inr v, w')"
  shows "\<exists>r. requests_get e url = Inr r
    \<and> v = (if status_code r = 200 then Some (os_path_join outdir (last (str_split ''/'' url)))
           else None)"
proof -
  from assms obtain r where r: "requests_get e url = Inr r"
    by (cases "requests_get e url") (simp_all add: save_img_from_url_def http_get_def)
  show ?thesis
  proof (cases "status_code r = 200")
    case False
    with assms r show ?thesis
      by (simp add: save_img_from_url_def http_get_def)
  next
    case True
    let ?w2 = "sleep 10 (emit (HttpGet url) w)"
    let ?f = "os_path_join outdir (last (str_split ''/'' url))"
    have unfold: "save_img_from_url e url outdir w =
        (case (if \<not> os_path_exists ?w2 outdir then os_makedirs outdir ?w2 else (Inr (), ?w2)) of
           (Inl x, w3) \<Rightarrow> (Inl x, w3)
         | (Inr u, w3) \<Rightarrow>
             (case write_file ?f (content r) w3 of
                (Inl x, w4) \<Rightarrow> (Inl x, w4)
              | (Inr u', w4) \<Rightarrow> (Inr (Some ?f), w4)))"
      using r True by (simp add: save_img_from_url_def http_get_def Let_def)
    from assms obtain u w3 where
      "(case write_file ?f (content r) w3 of
           (Inl x, w4) \<Rightarrow> (Inl x, w4)
         | (Inr u', w4) \<Rightarrow> (Inr (Some ?f), w4)) = (Inr v, w')"
      unfolding unfold by (rule bind_world_Inr) blast
    then obtain u' w4 where "(Inr (Some ?f), w4) = (Inr v, w')"
      by (rule bind_world_Inr) blast
    with r True show ?thesis by simp
  qed
qed

lemma download_images_det:
  assumes "download_images e purl outdir imgs acc w1 = (Inr a, w1')"
    and "download_images e purl outdir imgs acc w2 = (Inr b, w2')"
  shows "a = b"
  using assms
proof (induction imgs arbitrary: acc w1 w2)
  case Nil
  then show ?case by simp
next
  case (Cons img imgs)
  let ?k = "\<lambda>cur_img w. if truthy cur_img
          then download_images e purl outdir imgs (acc @ [the cur_img]) w
          else download_images e purl outdir imgs acc (py_print purl w)"
  from Cons.prems(1) obtain c1 v1 where s1: "save_img_from_url e img outdir w1 = (Inr c1, v1)"
    and k1: "?k c1 v1 = (Inr a, w1')"
    unfolding download_images.simps by (rule bind_world_Inr) blast
  from Cons.prems(2) obtain c2 v2 where s2: "save_img_from_url e img outdir w2 = (Inr c2, v2)"
    and k2: "?k c2 v2 = (Inr b, w2')"
    unfolding download_images.simps by (rule bind_world_Inr) blast
  from save_img_from_url_value[OF s1] save_img_from_url_value[OF s2] have c: "c1 = c2"
    by auto
  show ?case
  proof (cases "truthy c1")
    case True
    with k1 k2 c show ?thesis
      using Cons.IH[of "acc @ [the c1]" v1 v2] by simp
  next
    case False
    with k1 k2 c show ?thesis
      using Cons.IH[of acc "py_print purl v1" "py_print purl v2"] by simp
  qed
qed

lemma resolve_cwd: "cwd w' = cwd w \<Longrightarrow> resolve w' p = resolve w p"
  by (simp add: resolve_def)

lemma write_file_written:
  assumes "write_file p data w = (Inr u, w')"
  shows "cwd w' = cwd w \<and> files w' (resolve w' p) = Some data"
proof -
  from assms have w': "w' = w\<lparr>files := (files w)(resolve w p \<mapsto> data)\<rparr>"
    by (simp add: write_file_def split: if_splits del: fun_upd_apply)
  then have c: "cwd w' = cwd w" by simp
  from w' have "files w' (resolve w p) = Some data" by simp
  with c resolve_cwd[OF c] show ?thesis by simp
qed

lemma to_csv_file_written:
  assumes "to_csv_file p data w = (Inr u, w')"
  shows "write_file p data w = (Inr u, w')"
  using assms unfolding to_csv_file_def by (simp split: if_splits)

lemma write_data_value:
  assumes "write_data e df file_name proj_dir sep index w = (Inr p, w')"
  shows "p = os_path_join proj_dir file_name
    \<and> files w' (resolve w' p) = Some (to_csv e df sep index)"
proof -
  from assms obtain u w1 where
    "(let csv_path = os_path_join proj_dir file_name in
           case to_csv_file csv_path (to_csv e df sep index) w1 of
             (Inl x, w2) \<Rightarrow> (Inl x, w2)
           | (Inr u', w2) \<Rightarrow> (Inr csv_path, w2)) = (Inr p, w')"
    unfolding write_data_def by (rule bind_world_Inr) blast
  then obtain u' w2 where
    w: "to_csv_file (os_path_join proj_dir file_name) (to_csv e df sep index) w1 = (Inr u', w2)"
    and r: "(Inr (os_path_join proj_dir file_name), w2) = (Inr p, w')"
    unfolding Let_def by (rule bind_world_Inr) blast
  from r have "p = os_path_join proj_dir file_name" "w2 = w'" by simp_all
  with write_file_written[OF to_csv_file_written[OF w]] show ?thesis by simp
qed

lemma details_text_det:
  assumes "(if truthy img_dir
         then write_data e d file_name dir ''|'' False w1
         else (Inr (df2str e d ''|''), w1)) = (Inr s1, v1)"
    and "(if truthy img_dir
         then write_data e d file_name dir ''|'' False w2
         else (Inr (df2str e d ''|''), w2)) = (Inr s2, v2)"
  shows "s1 = s2"
proof (cases "truthy img_dir")
  case True
  with assms have "write_data e d file_name dir ''|'' False w1 = (Inr s1, v1)"
    "write_data e d file_name dir ''|'' False w2 = (Inr s2, v2)" by simp_all
  from write_data_value[OF this(1)] write_data_value[OF this(2)] show ?thesis by simp
next
  case False
  with assms show ?thesis by simp
qed

lemma extract_fields_det:
  assumes "extract_fields e img_dir bs img_urls dl w1 = (Inr a, w1')"
    and "extract_fields e img_dir bs img_urls dl w2 = (Inr b, w2')"
  shows "a = b"
proof -
  from assms(1) obtain ean_tag where t1: "find_bs ''div'' (Some class_ean) [] bs = Some ean_tag"
    by (cases "find_bs ''div'' (Some class_ean) [] bs") (simp_all add: extract_fields_def Let_def)
  from assms(1) t1 obtain description_tag where
    t2: "find_bs ''div'' (Some class_product_description) [] bs = Some description_tag"
    by (cases "find_bs ''div'' (Some class_product_description) [] bs")
       (simp_all add: extract_fields_def Let_def)
  from assms(1) t1 t2 obtain d where t3: "process_details bs = Inr d"
    by (cases "process_details bs") (simp_all add: extract_fields_def Let_def)
  let ?ean = "strip (str_replace pre_ean [] (get_text ean_tag))"
  let ?m = "\<lambda>w. if truthy img_dir
       then write_data e d (?ean @ ''.csv'') (os_path_join (the img_dir) csv_final_dir) ''|'' False w
       else (Inr (df2str e d ''|''), w)"
  let ?rec = "\<lambda>s. \<lparr>pp_ean = ?ean,
       pp_uvp = (case find_bs ''span'' (Some class_uvp) [] bs of
                   Some t \<Rightarrow> strip (get_text t) | None \<Rightarrow> ''NA''),
       pp_description = (case find_bs ''ul'' None [] description_tag of
                           None \<Rightarrow> ''None'' | Some ul \<Rightarrow> tag_str e ul),
       pp_details = s, pp_img_urls = img_urls, pp_downloaded_images = dl\<rparr>"
  have unfold: "extract_fields e img_dir bs img_urls dl w =
      (case ?m w of (Inl x, w1) \<Rightarrow> (Inl x, w1) | (Inr s, w1) \<Rightarrow> (Inr (?rec s), w1))" for w
    by (simp add: extract_fields_def Let_def t1 t2 t3)
  from assms(1) obtain s1 v1 where m1: "?m w1 = (Inr s1, v1)" and r1: "(Inr (?rec s1), v1) = (Inr a, w1')"
    unfolding unfold by (rule bind_world_Inr) blast
  from assms(2) obtain s2 v2 where m2: "?m w2 = (Inr s2, v2)" and r2: "(Inr (?rec s2), v2) = (Inr b, w2')"
    unfolding unfold by (rule bind_world_Inr) blast
  from details_text_det[OF m1 m2] have "s1 = s2" .
  with r1 r2 show ?thesis by simp
qed


lemma downloads_det:
  assumes "(if truthy img_dir then download_images e purl outdir imgs [] w1 else (Inr [], w1))
      = (Inr d1, v1)"
    and "(if truthy img_dir then download_images e purl outdir imgs [] w2 else (Inr [], w2))
      = (Inr d2, v2)"
  shows "d1 = d2"
proof (cases "truthy img_dir")
  case True
  with assms have "download_images e purl outdir imgs [] w1 = (Inr d1, v1)"
    "download_images e purl outdir imgs [] w2 = (Inr d2, v2)" by simp_all
  then show ?thesis by (rule download_images_det)
next
  case False
  with assms show ?thesis by simp
qed

lemma process_prod_page_det:
  assumes "process_prod_page e domain img_dir u w1 = (Inr a, w1')"
    and "process_prod_page e domain img_dir u w2 = (Inr b, w2')"
  shows "a = b"
proof -
  from assms(1) obtain r where r: "requests_get e u = Inr r"
    by (cases "requests_get e u") (simp_all add: process_prod_page_def http_get_def)
  from assms(1) r obtain img_urls where i: "image_urls domain (lxml e (content r)) = Inr img_urls"
    by (cases "image_urls domain (lxml e (content r))")
       (simp_all add: process_prod_page_def http_get_def Let_def)
  let ?m = "\<lambda>w. if truthy img_dir
       then download_images e u (os_path_join (the img_dir) img_final_dir) img_urls []
              (sleep 10 (emit (HttpGet u) w))
       else (Inr [], sleep 10 (emit (HttpGet u) w))"
  have unfold: "process_prod_page e domain img_dir u w =
      (case ?m w of
         (Inl x, w3) \<Rightarrow> (Inl x, w3)
       | (Inr downloaded_images, w3) \<Rightarrow>
           extract_fields e img_dir (lxml e (content r)) img_urls downloaded_images w3)" for w
    by (simp add: process_prod_page_def http_get_def Let_def r i)
  from assms(1) obtain d1 v1 where m1: "?m w1 = (Inr d1, v1)"
    and x1: "extract_fields e img_dir (lxml e (content r)) img_urls d1 v1 = (Inr a, w1')"
    unfolding unfold by (rule bind_world_Inr) blast
  from assms(2) obtain d2 v2 where m2: "?m w2 = (Inr d2, v2)"
    and x2: "extract_fields e img_dir (lxml e (content r)) img_urls d2 v2 = (Inr b, w2')"
    unfolding unfold by (rule bind_world_Inr) blast
  from downloads_det[OF m1 m2] have "d1 = d2" .
  with x1 x2 show ?thesis by (auto intro: extract_fields_det)
qed

lemma process_products_det:
  assumes "process_products e domain img_dir urls acc w1 = (Inr a, w1')"
    and "process_products e domain img_dir urls acc w2 = (Inr b, w2')"
  shows "a = b"
  using assms
proof (induction urls arbitrary: acc w1 w2)
  case Nil
  then show ?case by simp
next
  case (Cons u urls)
  let ?acc = "\<lambda>cur. \<lparr>ean = ean acc @ [pp_ean cur] @ [pp_uvp cur],
             uvp = uvp acc,
             description = description acc @ [pp_description cur],
             details = details acc @ [pp_details cur],
             product_img_urls = product_img_urls acc @ [str_join '' '' (pp_img_urls cur)],
             downloaded_imgs = downloaded_imgs acc @ [str_join '' '' (pp_downloaded_images cur)]\<rparr>"
  from Cons.prems(1) obtain c1 v1 where p1: "process_prod_page e domain img_dir u w1 = (Inr c1, v1)"
    and k1: "process_products e domain img_dir urls (?acc c1) v1 = (Inr a, w1')"
    unfolding process_products.simps by (rule bind_world_Inr) blast
  from Cons.prems(2) obtain c2 v2 where p2: "process_prod_page e domain img_dir u w2 = (Inr c2, v2)"
    and k2: "process_products e domain img_dir urls (?acc c2) v2 = (Inr b, w2')"
    unfolding process_products.simps by (rule bind_world_Inr) blast
  from process_prod_page_det[OF p1 p2] have "c1 = c2" .
  with k1 k2 show ?case by (auto intro: Cons.IH)
qed

lemma fetch_pages_det:
  assumes "fetch_pages e url pagesize pages bs w1 = (Inr a, w1')"
    and "fetch_pages e url pagesize pages bs w2 = (Inr b, w2')"
  shows "a = b"
  using assms
proof (induction pages arbitrary: bs w1 w2)
  case Nil
  then show ?case by simp
next
  case (Cons p pages)
  let ?u = "url_page_format (hd (str_split ''?'' url)) p pagesize"
  from Cons.prems(1) obtain r where r: "requests_get e ?u = Inr r"
    by (cases "requests_get e ?u") (simp_all add: http_get_def Let_def)
  from Cons.prems r show ?case
    by (auto simp: http_get_def Let_def intro: Cons.IH)
qed

lemma show_more_loop_any_world:
  fixes drv :: "('s, 'el) webdriver"
  assumes "show_more_loop drv button clicks b w = Some (res, w')"
  shows "\<exists>v'. show_more_loop drv button clicks b v = Some (res, v')"
proof -
  have "\<forall>v. \<exists>v'. show_more_loop drv button clicks b v = Some (fst (res, w'), v')"
  proof (rule show_more_loop.raw_induct
      [where P = "\<lambda>drv button clicks b w y.
          \<forall>v. \<exists>v'. show_more_loop drv button clicks b v = Some (fst y, v')", OF _ assms])
    fix f :: "('s, 'el) webdriver \<Rightarrow> 'el \<Rightarrow> nat \<Rightarrow> 's \<Rightarrow> world \<Rightarrow> ((exn + nat \<times> 's) \<times> world) option"
    fix drv button clicks b w y
    assume ih: "\<And>drv button clicks b w y. f drv button clicks b w = Some y \<Longrightarrow>
        \<forall>v. \<exists>v'. show_more_loop drv button clicks b v = Some (fst y, v')"
    assume body: "(case click drv button b of
        Inl x \<Rightarrow>
          if x = ElementNotInteractableException
          then Some (Inr (clicks, b), py_print (show_more_progress clicks) w)
          else Some (Inl x, py_print (show_more_progress clicks) w)
      | Inr b' \<Rightarrow>
          f drv button (Suc clicks) b'
            (sleep 1000 (py_print (show_more_progress clicks) w))) = Some y"
    show "\<forall>v. \<exists>v'. show_more_loop drv button clicks b v = Some (fst y, v')"
    proof (cases "click drv button b")
      case (Inl x)
      with body have "fst y = (if x = ElementNotInteractableException then Inr (clicks, b) else Inl x)"
        by (auto split: if_splits)
      with Inl show ?thesis
        by (simp add: show_more_loop_click_raises)
    next
      case (Inr b')
      with body have "f drv button (Suc clicks) b'
            (sleep 1000 (py_print (show_more_progress clicks) w)) = Some y" by simp
      from ih[OF this] Inr show ?thesis
        by (simp add: show_more_loop_click_ok)
    qed
  qed
  then show ?thesis by simp
qed

lemma show_more_loop_det:
  assumes "show_more_loop drv button clicks b w1 = Some (r1, w1')"
    and "show_more_loop drv button clicks b w2 = Some (r2, w2')"
  shows "r1 = r2"
  using show_more_loop_any_world[OF assms(1), of w2] assms(2) by auto


lemma traverse_listing_det:
  fixes drv :: "('s, 'el) webdriver"
  assumes "traverse_listing e drv url w1 = Some (Inr a, w1')"
    and "traverse_listing e drv url w2 = Some (Inr b, w2')"
  shows "a = b"
proof -
  from assms(1) obtain r where r: "requests_get e url = Inr r"
    by (cases "requests_get e url") (simp_all add: traverse_listing_def http_get_def)
  let ?bs = "lxml e (content r)"
  let ?v = "\<lambda>w. emit (HttpGet url) w"
  show ?thesis
  proof (cases "find_all ''a'' (Some class_scroll_button) [] ?bs \<noteq> []")
    case True
    from assms(1) r True obtain b0 where b0: "driver_get drv url = Inr b0"
      by (cases "driver_get drv url") (simp_all add: traverse_listing_def http_get_def)
    from assms(1) r True b0 obtain b1 where
      b1: "wait_until_located drv (ByClassName class_scroll_button) b0 = Inr b1"
      by (cases "wait_until_located drv (ByClassName class_scroll_button) b0")
         (simp_all add: traverse_listing_def http_get_def)
    from assms(1) r True b0 b1 obtain button where
      bt: "find_element drv (ByClassName class_scroll_button) b1 = Inr button"
      by (cases "find_element drv (ByClassName class_scroll_button) b1")
         (simp_all add: traverse_listing_def http_get_def)
    have unfold: "traverse_listing e drv url w =
        (case show_more_loop drv button 0 b1 (?v w) of
           None \<Rightarrow> None
         | Some (Inl x, w2) \<Rightarrow> Some (Inl x, w2)
         | Some (Inr (clicks, b2), w2) \<Rightarrow>
             Some (Inr (Single (html_parser e (page_source drv b2))), w2))" for w
      using r True b0 b1 bt by (simp add: traverse_listing_def http_get_def)
    from assms(1) obtain c1 s1 v1 where
      l1: "show_more_loop drv button 0 b1 (?v w1) = Some (Inr (c1, s1), v1)"
      and a: "a = Single (html_parser e (page_source drv s1))"
      unfolding unfold by (auto split: option.splits sum.splits prod.splits)
    from assms(2) obtain c2 s2 v2 where
      l2: "show_more_loop drv button 0 b1 (?v w2) = Some (Inr (c2, s2), v2)"
      and b: "b = Single (html_parser e (page_source drv s2))"
      unfolding unfold by (auto split: option.splits sum.splits prod.splits)
    from show_more_loop_det[OF l1 l2] a b show ?thesis by simp
  next
    case False
    note no_more = this
    show ?thesis
    proof (cases "find_bs ''li'' (Some class_nr_pages) [] ?bs \<noteq> None")
      case True
      from assms(1) r no_more True obtain pagesize where ps: "read_pagesize ?bs = Inr pagesize"
        by (cases "read_pagesize ?bs") (simp_all add: traverse_listing_def http_get_def)
      from assms(1) r no_more True ps obtain page_nr where nr: "read_page_nr ?bs = Inr page_nr"
        by (cases "read_page_nr ?bs") (simp_all add: traverse_listing_def http_get_def)
      from assms(1) r no_more True ps nr have small: "\<not> max_len \<le> page_nr"
        by (cases "max_len \<le> page_nr") (simp_all add: traverse_listing_def http_get_def)
      have unfold: "traverse_listing e drv url w =
          (case fetch_pages e url pagesize [1..page_nr] []
                  (py_print ''Creating bs objects for product listing ...'' (?v w)) of
             (Inl x, w2) \<Rightarrow> Some (Inl x, w2)
           | (Inr pages, w2) \<Rightarrow> Some (Inr (Pages pages), w2))" for w
        using r no_more True ps nr small by (simp add: traverse_listing_def http_get_def)
      from assms(1) obtain p1 v1 where
        f1: "fetch_pages e url pagesize [1..page_nr] []
               (py_print ''Creating bs objects for product listing ...'' (?v w1)) = (Inr p1, v1)"
        and a: "a = Pages p1"
        unfolding unfold by (auto split: sum.splits prod.splits)
      from assms(2) obtain p2 v2 where
        f2: "fetch_pages e url pagesize [1..page_nr] []
               (py_print ''Creating bs objects for product listing ...'' (?v w2)) = (Inr p2, v2)"
        and b: "b = Pages p2"
        unfolding unfold by (auto split: sum.splits prod.splits)
      from fetch_pages_det[OF f1 f2] a b show ?thesis by simp
    next
      case False
      with assms r no_more show ?thesis
        by (simp add: traverse_listing_def http_get_def)
    qed
  qed
qed

lemma process_gedore_det:
  fixes drv :: "('s, 'el) webdriver"
  assumes "process_gedore e drv url img_dir w1 = Some (Inr df1, w1')"
    and "process_gedore e drv url img_dir w2 = Some (Inr df2, w2')"
  shows "df1 = df2"
proof -
  from assms(1) obtain bs1 v1 where t1: "traverse_listing e drv url w1 = Some (Inr bs1, v1)"
    by (cases "traverse_listing e drv url w1")
       (auto simp: process_gedore_def split: sum.splits prod.splits)
  from assms(2) obtain bs2 v2 where t2: "traverse_listing e drv url w2 = Some (Inr bs2, v2)"
    by (cases "traverse_listing e drv url w2")
       (auto simp: process_gedore_def split: sum.splits prod.splits)
  from traverse_listing_det[OF t1 t2] have bs: "bs2 = bs1" by simp
  from assms(1) t1 obtain l where l: "extract_listing bs1 = Inr l"
    by (cases "extract_listing bs1") (simp_all add: process_gedore_def)
  let ?cols = "\<lparr>ean = [], uvp = [], description = [], details = [],
                        product_img_urls = [], downloaded_imgs = []\<rparr>"
  let ?p = "\<lambda>v. py_print ([CHR 0x0A] @ ''Extracting info from product pages ...'') v"
  have unfold: "traverse_listing e drv url w = Some (Inr bs1, v) \<Longrightarrow>
      process_gedore e drv url img_dir w =
       (case process_products e (url_domain url) img_dir (product_urls_list l) ?cols (?p v) of
          (Inl x, w2) \<Rightarrow> Some (Inl x, w2)
        | (Inr c, w2) \<Rightarrow> Some (gedore_df l c, w2))" for w v
    using l by (simp add: process_gedore_def)
  from assms(1) obtain c1 u1 where
    p1: "process_products e (url_domain url) img_dir (product_urls_list l) ?cols (?p v1) = (Inr c1, u1)"
    and d1: "gedore_df l c1 = Inr df1"
    unfolding unfold[OF t1] by (auto split: sum.splits prod.splits)
  from assms(2) obtain c2 u2 where
    p2: "process_products e (url_domain url) img_dir (product_urls_list l) ?cols (?p v2) = (Inr c2, u2)"
    and d2: "gedore_df l c2 = Inr df2"
    unfolding unfold[OF t2[unfolded bs]] by (auto split: sum.splits prod.splits)
  from process_products_det[OF p1 p2] d1 d2 show ?thesis by simp
qed

lemma extract_fields_no_dir:
  assumes "\<not> truthy img_dir"
  shows "fst (extract_fields e img_dir bs img_urls dl w1) = fst (extract_fields e img_dir bs img_urls dl w2)"
  using assms
  by (simp add: extract_fields_def Let_def split: option.splits sum.splits)

lemma process_prod_page_no_dir:
  assumes "\<not> truthy img_dir"
  shows "fst (process_prod_page e domain img_dir u w1) = fst (process_prod_page e domain img_dir u w2)"
proof (cases "requests_get e u")
  case (Inl x)
  then show ?thesis by (simp add: process_prod_page_def http_get_def)
next
  case (Inr r)
  show ?thesis
  proof (cases "image_urls domain (lxml e (content r))")
    case (Inl x)
    with Inr show ?thesis by (simp add: process_prod_page_def http_get_def Let_def)
  next
    case (Inr img_urls)
    with \<open>requests_get e u = Inr r\<close> assms show ?thesis
      by (simp add: process_prod_page_def http_get_def Let_def)
         (rule extract_fields_no_dir[OF assms])
  qed
qed

lemma process_products_no_dir:
  assumes "\<not> truthy img_dir"
  shows "fst (process_products e domain img_dir urls acc w1)
    = fst (process_products e domain img_dir urls acc w2)"
proof (induction urls arbitrary: acc w1 w2)
  case Nil
  show ?case by simp
next
  case (Cons u urls)
  obtain res1 v1 where p1: "process_prod_page e domain img_dir u w1 = (res1, v1)"
    by (cases "process_prod_page e domain img_dir u w1") auto
  obtain res2 v2 where p2: "process_prod_page e domain img_dir u w2 = (res2, v2)"
    by (cases "process_prod_page e domain img_dir u w2") auto
  from process_prod_page_no_dir[OF assms, of e domain u w1 w2] p1 p2 have eq: "res2 = res1"
    by simp
  show ?case
  proof (cases res1)
    case (Inl x)
    with p1 p2 eq show ?thesis by simp
  next
    case (Inr cur)
    with p1 p2 eq show ?thesis by (simp add: Cons.IH)
  qed
qed

lemma fetch_pages_fst:
  "fst (fetch_pages e url pagesize pages bs w1) = fst (fetch_pages e url pagesize pages bs w2)"
proof (induction pages arbitrary: bs w1 w2)
  case Nil
  show ?case by simp
next
  case (Cons p pages)
  show ?case
    by (cases "requests_get e (url_page_format (hd (str_split ''?'' url)) p pagesize)")
       (simp_all add: http_get_def Let_def Cons.IH)
qed

lemma show_more_loop_fst:
  fixes drv :: "('s, 'el) webdriver"
  shows "map_option fst (show_more_loop drv button clicks b w1)
    = map_option fst (show_more_loop drv button clicks b w2)"
proof (cases "show_more_loop drv button clicks b w1")
  case None
  show ?thesis
  proof (cases "show_more_loop drv button clicks b w2")
    case None
    with \<open>show_more_loop drv button clicks b w1 = None\<close> show ?thesis by simp
  next
    case (Some y)
    then have "show_more_loop drv button clicks b w2 = Some (fst y, snd y)" by simp
    from show_more_loop_any_world[OF this, of w1] None show ?thesis by simp
  qed
next
  case (Some y)
  then have "show_more_loop drv button clicks b w1 = Some (fst y, snd y)" by simp
  from show_more_loop_any_world[OF this, of w2] Some show ?thesis by auto
qed


lemma traverse_listing_fst:
  fixes drv :: "('s, 'el) webdriver"
  shows "map_option fst (traverse_listing e drv url w1) = map_option fst (traverse_listing e drv url w2)"
proof (cases "requests_get e url")
  case (Inl x)
  then show ?thesis by (simp add: traverse_listing_def http_get_def)
next
  case (Inr r)
  note r = this
  let ?bs = "lxml e (content r)"
  let ?v = "\<lambda>w. emit (HttpGet url) w"
  show ?thesis
  proof (cases "find_all ''a'' (Some class_scroll_button) [] ?bs \<noteq> []")
    case True
    note more = this
    show ?thesis
    proof (cases "driver_get drv url")
      case (Inl x)
      with r more show ?thesis by (simp add: traverse_listing_def http_get_def)
    next
      case (Inr b0)
      note b0 = this
      show ?thesis
      proof (cases "wait_until_located drv (ByClassName class_scroll_button) b0")
        case (Inl x)
        with r more b0 show ?thesis by (simp add: traverse_listing_def http_get_def)
      next
        case (Inr b1)
        note b1 = this
        show ?thesis
        proof (cases "find_element drv (ByClassName class_scroll_button) b1")
          case (Inl x)
          with r more b0 b1 show ?thesis by (simp add: traverse_listing_def http_get_def)
        next
          case (Inr button)
          have unfold: "traverse_listing e drv url w =
              (case show_more_loop drv button 0 b1 (?v w) of
                 None \<Rightarrow> None
               | Some (Inl x, w2) \<Rightarrow> Some (Inl x, w2)
               | Some (Inr (clicks, b2), w2) \<Rightarrow>
                   Some (Inr (Single (html_parser e (page_source drv b2))), w2))" for w
            using r more b0 b1 Inr by (simp add: traverse_listing_def http_get_def)
          have "map_option fst (show_more_loop drv button 0 b1 (?v w1))
              = map_option fst (show_more_loop drv button 0 b1 (?v w2))"
            by (rule show_more_loop_fst)
          then show ?thesis
            unfolding unfold
            by (cases "show_more_loop drv button 0 b1 (?v w1)";
                cases "show_more_loop drv button 0 b1 (?v w2)")
               (auto split: sum.splits prod.splits)
        qed
      qed
    qed
  next
    case False
    note no_more = this
    show ?thesis
    proof (cases "find_bs ''li'' (Some class_nr_pages) [] ?bs \<noteq> None")
      case True
      note numbered = this
      show ?thesis
      proof (cases "read_pagesize ?bs")
        case (Inl x)
        with r no_more numbered show ?thesis by (simp add: traverse_listing_def http_get_def)
      next
        case (Inr pagesize)
        note ps = this
        show ?thesis
        proof (cases "read_page_nr ?bs")
          case (Inl x)
          with r no_more numbered ps show ?thesis by (simp add: traverse_listing_def http_get_def)
        next
          case (Inr page_nr)
          note nr = this
          show ?thesis
          proof (cases "max_len \<le> page_nr")
            case True
            with r no_more numbered ps nr show ?thesis
              by (simp add: traverse_listing_def http_get_def)
          next
            case False
            let ?f = "\<lambda>w. fetch_pages e url pagesize [1..page_nr] []
                    (py_print ''Creating bs objects for product listing ...'' (?v w))"
            have unfold: "traverse_listing e drv url w =
                (case ?f w of
                   (Inl x, w2) \<Rightarrow> Some (Inl x, w2)
                 | (Inr pages, w2) \<Rightarrow> Some (Inr (Pages pages), w2))" for w
              using r no_more numbered ps nr False by (simp add: traverse_listing_def http_get_def)
            have "fst (?f w1) = fst (?f w2)"
              by (rule fetch_pages_fst)
            then show ?thesis
              unfolding unfold
              by (cases "?f w1"; cases "?f w2") (auto split: sum.splits)
          qed
        qed
      qed
    next
      case False
      with r no_more show ?thesis
        by (simp add: traverse_listing_def http_get_def)
    qed
  qed
qed

lemma process_gedore_no_dir:
  fixes drv :: "('s, 'el) webdriver"
  assumes "\<not> truthy img_dir"
  shows "map_option fst (process_gedore e drv url img_dir w1)
    = map_option fst (process_gedore e drv url img_dir w2)"
proof -
  let ?cols = "\<lparr>ean = [], uvp = [], description = [], details = [],
                        product_img_urls = [], downloaded_imgs = []\<rparr>"
  let ?p = "\<lambda>v. py_print ([CHR 0x0A] @ ''Extracting info from product pages ...'') v"
  have t: "map_option fst (traverse_listing e drv url w1)
      = map_option fst (traverse_listing e drv url w2)"
    by (rule traverse_listing_fst)
  show ?thesis
  proof (cases "traverse_listing e drv url w1")
    case None
    with t have "traverse_listing e drv url w2 = None" by simp
    with None show ?thesis by (simp add: process_gedore_def)
  next
    case (Some y1)
    with t obtain y2 where y2: "traverse_listing e drv url w2 = Some y2" "fst y2 = fst y1"
      by (cases "traverse_listing e drv url w2") auto
    obtain res v1 where y1: "y1 = (res, v1)" by (cases y1)
    with y2 obtain v2 where y2': "y2 = (res, v2)" by (cases y2) auto
    show ?thesis
    proof (cases res)
      case (Inl x)
      with Some y2 y1 y2' show ?thesis by (simp add: process_gedore_def)
    next
      case (Inr bs)
      show ?thesis
      proof (cases "extract_listing bs")
        case (Inl x)
        with Some y2 y1 y2' \<open>res = Inr bs\<close> show ?thesis by (simp add: process_gedore_def)
      next
        case (Inr l)
        let ?f = "\<lambda>v. process_products e (url_domain url) img_dir (product_urls_list l) ?cols (?p v)"
        have "fst (?f v1) = fst (?f v2)"
          by (rule process_products_no_dir[OF assms])
        with Some y2 y1 y2' \<open>res = Inr bs\<close> Inr show ?thesis
          by (cases "?f v1"; cases "?f v2") (auto simp: process_gedore_def split: sum.splits)
      qed
    qed
  qed
qed

end
